theory Spec2Isabelle
  imports Main "HOL-Library.FSet"
begin

section \<open>Strings and paths\<close>

text \<open>
  A Python string is modelled as a \<^typ>\<open>string\<close>, the bytes of its UTF-8 encoding. The
  separator \<open>/\<close> and the dot are single bytes that occur in the encoding of no other
  character, so splitting a path at them gives the same pieces on the bytes as on the
  characters.

  The case conversions of Python, \<^verbatim>\<open>str.lower\<close> and \<^verbatim>\<open>str.capitalize\<close>, follow the
  Unicode tables of the interpreter. The functions of the program that call them take
  them as the parameters \<open>lower\<close> and \<open>capitalize\<close>, and what is proved holds for
  every such function. On a string of ASCII characters the conversions are the familiar
  ones, \<open>ascii_lower\<close> and \<open>ascii_capitalize\<close> below; the examples, which use ASCII
  names only, are evaluated with them. \<open>ascii_upper\<close> serves to state that the case of
  an ASCII name does not matter.
\<close>

type_synonym path = string

definition ascii_lower_char :: "char \<Rightarrow> char" where
  "ascii_lower_char c =
     (case map_of (zip ''ABCDEFGHIJKLMNOPQRSTUVWXYZ'' ''abcdefghijklmnopqrstuvwxyz'') c of
        None \<Rightarrow> c | Some d \<Rightarrow> d)"

definition ascii_upper_char :: "char \<Rightarrow> char" where
  "ascii_upper_char c =
     (case map_of (zip ''abcdefghijklmnopqrstuvwxyz'' ''ABCDEFGHIJKLMNOPQRSTUVWXYZ'') c of
        None \<Rightarrow> c | Some d \<Rightarrow> d)"

definition ascii_lower :: "string \<Rightarrow> string" where
  "ascii_lower s = map ascii_lower_char s"

definition ascii_upper :: "string \<Rightarrow> string" where
  "ascii_upper s = map ascii_upper_char s"

text \<open>First character upper case, the rest lower case.\<close>

fun ascii_capitalize :: "string \<Rightarrow> string" where
  "ascii_capitalize [] = []"
| "ascii_capitalize (c # cs) = ascii_upper_char c # ascii_lower cs"

text \<open>\<^verbatim>\<open>str.isascii\<close>: every byte is below 128.\<close>

definition isascii :: "string \<Rightarrow> bool" where
  "isascii s = list_all (\<lambda>c. (of_char c :: nat) < 128) s"

text \<open>\<^verbatim>\<open>str.rfind\<close> for a single character: the highest index holding it, or \<open>-1\<close>.\<close>

definition rfind :: "string \<Rightarrow> char \<Rightarrow> int" where
  "rfind p c =
     (case filter (\<lambda>i. p ! i = c) (rev [0..<length p]) of
        [] \<Rightarrow> - 1
      | i # _ \<Rightarrow> int i)"

text \<open>
  \<^verbatim>\<open>os.path.splitext\<close> (POSIX flavour: separator \<open>/\<close>, extension separator \<open>.\<close>).
  The library function looks for the last dot after the last separator and accepts it as
  the start of the extension only when some character between the separator and that dot
  is not a dot:
  \<^verbatim>\<open>
    sepIndex = p.rfind(sep)
    dotIndex = p.rfind(extsep)
    if dotIndex > sepIndex:
        filenameIndex = sepIndex + 1
        while filenameIndex < dotIndex:
            if p[filenameIndex:filenameIndex+1] != extsep:
                return p[:dotIndex], p[dotIndex:]
            filenameIndex += 1
    return p, p[:0]
  \<close>
  \<open>splitext_loop\<close> is the while loop; it answers whether the loop returns the split.
\<close>

function splitext_loop :: "string \<Rightarrow> int \<Rightarrow> int \<Rightarrow> bool" where
  "splitext_loop p filenameIndex dotIndex =
     (if filenameIndex < dotIndex then
        (if p ! nat filenameIndex \<noteq> CHR ''.'' then True
         else splitext_loop p (filenameIndex + 1) dotIndex)
      else False)"
  by pat_completeness auto
termination
  by (relation "measure (\<lambda>(p, filenameIndex, dotIndex). nat (dotIndex - filenameIndex))") auto

definition splitext :: "path \<Rightarrow> string \<times> string" where
  "splitext p =
     (let sepIndex = rfind p (CHR ''/'');
          dotIndex = rfind p (CHR ''.'')
      in if dotIndex > sepIndex \<and> splitext_loop p (sepIndex + 1) dotIndex
         then (take (nat dotIndex) p, drop (nat dotIndex) p)
         else (p, []))"

text \<open>\<^verbatim>\<open>os.path.basename\<close>: everything after the last separator.\<close>

definition basename :: "path \<Rightarrow> string" where
  "basename p = drop (nat (rfind p (CHR ''/'') + 1)) p"

section \<open>The type classifier\<close>

text \<open>
  \<^verbatim>\<open>DatabaseManager.get_file_type\<close>: the lower-cased extension of the path is looked up in
  \<open>type_map\<close>, with \<open>other\<close> as the default of \<^verbatim>\<open>dict.get\<close>. Its first argument
  is \<^verbatim>\<open>str.lower\<close>.
\<close>

definition type_map :: "string \<rightharpoonup> string" where
  "type_map = map_of
     [(''.txt'', ''document''), (''.doc'', ''document''), (''.docx'', ''document''),
      (''.pdf'', ''document''), (''.pptx'', ''document''), (''.xlsx'', ''document''),
      (''.jpg'', ''image''), (''.jpeg'', ''image''), (''.png'', ''image''),
      (''.gif'', ''image''), (''.bmp'', ''image''), (''.svg'', ''image''), (''.webp'', ''image''),
      (''.mp4'', ''video''), (''.avi'', ''video''), (''.mov'', ''video''),
      (''.mkv'', ''video''), (''.wmv'', ''video''), (''.flv'', ''video''),
      (''.mp3'', ''audio''), (''.wav'', ''audio''), (''.m4a'', ''audio''),
      (''.flac'', ''audio''), (''.aac'', ''audio''),
      (''.zip'', ''archive''), (''.rar'', ''archive''), (''.7z'', ''archive''),
      (''.py'', ''other''), (''.java'', ''other''), (''.js'', ''other''),
      (''.html'', ''other''), (''.css'', ''other''), (''.cpp'', ''other''), (''.c'', ''other'')]"

definition get_file_type :: "(string \<Rightarrow> string) \<Rightarrow> path \<Rightarrow> string" where
  "get_file_type lower file_path =
     (let extension = lower (snd (splitext file_path))
      in case type_map extension of None \<Rightarrow> ''other'' | Some t \<Rightarrow> t)"

text \<open>
  The user interface has a classifier of its own (\<^verbatim>\<open>get_file_type\<close> of \<^verbatim>\<open>appp.py\<close>), an
  if-chain over extension lists.
\<close>

definition ui_get_file_type :: "(string \<Rightarrow> string) \<Rightarrow> string \<Rightarrow> string" where
  "ui_get_file_type lower filename =
     (let extension = lower (snd (splitext filename))
      in if extension \<in> set [''.txt'', ''.doc'', ''.docx'', ''.pdf'', ''.pptx'', ''.xlsx'']
           then ''document''
         else if extension \<in> set [''.jpg'', ''.jpeg'', ''.png'', ''.gif'', ''.bmp'', ''.svg'', ''.webp'']
           then ''image''
         else if extension \<in> set [''.mp4'', ''.avi'', ''.mov'', ''.mkv'', ''.wmv'']
           then ''video''
         else if extension \<in> set [''.mp3'', ''.wav'', ''.m4a'', ''.flac'']
           then ''audio''
         else if extension \<in> set [''.zip'', ''.rar'', ''.7z'']
           then ''archive''
         else ''other'')"

definition categories :: "string set" where
  "categories = {''document'', ''image'', ''video'', ''audio'', ''archive'', ''other''}"

section \<open>The filesystem and the clock\<close>

text \<open>
  What a handler sees of the outside world is passed in: the filesystem as a map from a
  path to the result of \<^verbatim>\<open>os.stat\<close> (no entry: the path does not exist), and the clock
  readings. Time stamps are abstract ticks. One run of a handler sees one filesystem and one
  reading of the clock.
\<close>

type_synonym datetime = nat

datatype file_kind = Regular | Directory | Special

record stat_result =
  st_kind :: file_kind
  st_size :: int
  st_ctime :: datetime
  st_mtime :: datetime

type_synonym filesystem = "path \<rightharpoonup> stat_result"

definition os_path_exists :: "filesystem \<Rightarrow> path \<Rightarrow> bool" where
  "os_path_exists fs p = (case fs p of None \<Rightarrow> False | Some st \<Rightarrow> True)"

definition os_path_isfile :: "filesystem \<Rightarrow> path \<Rightarrow> bool" where
  "os_path_isfile fs p = (case fs p of None \<Rightarrow> False | Some st \<Rightarrow> st_kind st = Regular)"

record world =
  time_time :: string
  datetime_now :: datetime
  filesystem :: filesystem

section \<open>The index store\<close>

text \<open>
  The two tables of \<^verbatim>\<open>models.py\<close>. A table is the list of its rows in insertion order.
  \<open>file_size\<close> and \<open>file_type\<close> are optional because the statistics code tests them
  for \<^verbatim>\<open>None\<close>.
\<close>

record File =
  file_id :: int
  file_path :: string
  file_name :: string
  file_extension :: string
  file_size :: "int option"
  file_type :: "string option"
  created_time :: datetime
  modified_time :: datetime
  last_accessed :: datetime
  access_count :: int

record FileEvent =
  event_id :: int
  event_file_path :: string
  event_type :: string
  timestamp :: datetime

record database =
  files :: "File list"
  file_events :: "FileEvent list"

text \<open>An integer primary key left out on insert: one more than the largest one in use.\<close>

definition new_id :: "int list \<Rightarrow> int" where
  "new_id ids = fold max ids 0 + 1"

text \<open>\<^verbatim>\<open>session.query(File).filter(File.file_path == p).first()\<close>\<close>

definition query_first :: "path \<Rightarrow> database \<Rightarrow> File option" where
  "query_first p d = find (\<lambda>f. file_path f = p) (files d)"

text \<open>Committing a changed row object: the row that was read is replaced where it stands.\<close>

fun update_row :: "'a \<Rightarrow> 'a \<Rightarrow> 'a list \<Rightarrow> 'a list" where
  "update_row old new [] = []"
| "update_row old new (x # xs) = (if x = old then new # xs else x # update_row old new xs)"

section \<open>DatabaseManager\<close>

text \<open>
  The manager's state is the database together with the records its logger has written.
  The store is taken to be reachable, so the \<^verbatim>\<open>except\<close> branches that roll back after a
  database error do not occur; the callback (it prints) and the optional organizer (it
  writes a table of its own) are left out. Log messages are kept without their pictographs.
\<close>

datatype log_level = INFO | WARNING | ERROR

record manager =
  db :: database
  log_records :: "(log_level \<times> string) list"

definition log_event :: "datetime \<Rightarrow> path \<Rightarrow> string \<Rightarrow> database \<Rightarrow> database" where
  "log_event now p etype d =
     d\<lparr>file_events := file_events d @
         [\<lparr>event_id = new_id (map event_id (file_events d)), event_file_path = p,
           event_type = etype, timestamp = now\<rparr>]\<rparr>"

definition add_file ::
  "(string \<Rightarrow> string) \<Rightarrow> filesystem \<Rightarrow> datetime \<Rightarrow> path \<Rightarrow> manager \<Rightarrow> manager" where
  "add_file lower fs now p m =
     (if os_path_exists fs p \<and> os_path_isfile fs p then
        (case fs p of
           None \<Rightarrow> m\<lparr>log_records := log_records m @ [(ERROR, ''Error adding file '' @ p)]\<rparr>
         | Some stat \<Rightarrow>
            (case query_first p (db m) of
               Some existing_file \<Rightarrow>
                 (let changed = existing_file\<lparr>modified_time := st_mtime stat,
                                               last_accessed := now,
                                               file_size := Some (st_size stat)\<rparr>
                  in m\<lparr>db := log_event now p ''updated''
                         ((db m)\<lparr>files := update_row existing_file changed (files (db m))\<rparr>)\<rparr>)
             | None \<Rightarrow>
                 (let file_record =
                        \<lparr>file_id = new_id (map file_id (files (db m))),
                         file_path = p,
                         file_name = basename p,
                         file_extension = lower (snd (splitext p)),
                         file_size = Some (st_size stat),
                         file_type = Some (get_file_type lower p),
                         created_time = st_ctime stat,
                         modified_time = st_mtime stat,
                         last_accessed = now,
                         access_count = 1\<rparr>
                  in m\<lparr>db := log_event now p ''created''
                         ((db m)\<lparr>files := files (db m) @ [file_record]\<rparr>)\<rparr>)))
      else m)"

definition update_file ::
  "(string \<Rightarrow> string) \<Rightarrow> filesystem \<Rightarrow> datetime \<Rightarrow> path \<Rightarrow> manager \<Rightarrow> manager" where
  "update_file lower fs now p m =
     (if os_path_exists fs p then
        (case query_first p (db m) of
           Some file \<Rightarrow>
             (case fs p of
                None \<Rightarrow> m\<lparr>log_records := log_records m @ [(ERROR, ''Error updating file '' @ p)]\<rparr>
              | Some stat \<Rightarrow>
                 (let changed = file\<lparr>modified_time := st_mtime stat,
                                     file_size := Some (st_size stat),
                                     last_accessed := now,
                                     access_count := access_count file + 1\<rparr>
                  in m\<lparr>db := log_event now p ''modified''
                         ((db m)\<lparr>files := update_row file changed (files (db m))\<rparr>)\<rparr>))
         | None \<Rightarrow> add_file lower fs now p m)
      else m)"

definition remove_file :: "datetime \<Rightarrow> path \<Rightarrow> manager \<Rightarrow> manager" where
  "remove_file now p m =
     (case query_first p (db m) of
        Some file \<Rightarrow>
          m\<lparr>db := log_event now p ''deleted'' ((db m)\<lparr>files := remove1 file (files (db m))\<rparr>)\<rparr>
      | None \<Rightarrow>
          m\<lparr>log_records := log_records m @ [(WARNING, ''File not found in database: '' @ p)]\<rparr>)"

section \<open>FileMonitor\<close>

text \<open>
  A notification of the watcher, and the handler's state: its manager and the set of event
  keys it has seen. \<open>abspath\<close> stands for \<^verbatim>\<open>os.path.abspath\<close>, and \<open>time_time w\<close> for
  the text that the key's f-string makes of \<^verbatim>\<open>time.time()\<close>. \<open>lower\<close> is handed on to
  the manager.
\<close>

record fs_event =
  is_directory :: bool
  src_path :: string
  dest_path :: string

record file_monitor =
  db_manager :: manager
  processed_events :: "string fset"

text \<open>The tail of every handler: forget all keys once more than 1000 are held.\<close>

definition clean_old_events :: "file_monitor \<Rightarrow> file_monitor" where
  "clean_old_events mon =
     (if fcard (processed_events mon) > 1000 then mon\<lparr>processed_events := {||}\<rparr> else mon)"

definition on_created ::
  "(string \<Rightarrow> string) \<Rightarrow> (path \<Rightarrow> path) \<Rightarrow> world \<Rightarrow> fs_event \<Rightarrow> file_monitor \<Rightarrow>
   file_monitor" where
  "on_created lower abspath w event mon =
     (if \<not> is_directory event then
        (let p = abspath (src_path event);
             event_key = ''created_'' @ p @ ''_'' @ time_time w
         in if event_key |\<notin>| processed_events mon then
              clean_old_events
                (mon\<lparr>processed_events := finsert event_key (processed_events mon),
                     db_manager := add_file lower (filesystem w) (datetime_now w) p (db_manager mon)\<rparr>)
            else mon)
      else mon)"

definition on_modified ::
  "(string \<Rightarrow> string) \<Rightarrow> (path \<Rightarrow> path) \<Rightarrow> world \<Rightarrow> fs_event \<Rightarrow> file_monitor \<Rightarrow>
   file_monitor" where
  "on_modified lower abspath w event mon =
     (if \<not> is_directory event then
        (let p = abspath (src_path event);
             event_key = ''modified_'' @ p @ ''_'' @ time_time w
         in if event_key |\<notin>| processed_events mon then
              clean_old_events
                (mon\<lparr>processed_events := finsert event_key (processed_events mon),
                     db_manager := update_file lower (filesystem w) (datetime_now w) p (db_manager mon)\<rparr>)
            else mon)
      else mon)"

definition on_deleted :: "(path \<Rightarrow> path) \<Rightarrow> world \<Rightarrow> fs_event \<Rightarrow> file_monitor \<Rightarrow> file_monitor" where
  "on_deleted abspath w event mon =
     (if \<not> is_directory event then
        (let p = abspath (src_path event);
             event_key = ''deleted_'' @ p @ ''_'' @ time_time w
         in if event_key |\<notin>| processed_events mon then
              clean_old_events
                (mon\<lparr>processed_events := finsert event_key (processed_events mon),
                     db_manager := remove_file (datetime_now w) p (db_manager mon)\<rparr>)
            else mon)
      else mon)"

text \<open>
  \<^verbatim>\<open>on_moved\<close> calls \<^verbatim>\<open>remove_file\<close>, sleeps, and calls \<^verbatim>\<open>add_file\<close>, which sleeps again
  before it looks at the filesystem. Each call commits on its own, so the handler is given
  as the list of states it passes through, one per statement that changes state: the key
  is remembered, the old path is removed, the new path is added, old keys are cleaned.
  \<open>on_moved\<close> is the state it ends in.
\<close>

definition on_moved_steps ::
  "(string \<Rightarrow> string) \<Rightarrow> (path \<Rightarrow> path) \<Rightarrow> world \<Rightarrow> fs_event \<Rightarrow> file_monitor \<Rightarrow>
   file_monitor list" where
  "on_moved_steps lower abspath w event mon =
     (if \<not> is_directory event then
        (let src = abspath (src_path event);
             dest = abspath (dest_path event);
             event_key = ''moved_'' @ src @ ''_'' @ dest @ ''_'' @ time_time w
         in if event_key |\<notin>| processed_events mon then
              (let mon1 = mon\<lparr>processed_events := finsert event_key (processed_events mon)\<rparr>;
                   mon2 = mon1\<lparr>db_manager := remove_file (datetime_now w) src (db_manager mon1)\<rparr>;
                   mon3 = mon2\<lparr>db_manager :=
                            add_file lower (filesystem w) (datetime_now w) dest (db_manager mon2)\<rparr>;
                   mon4 = clean_old_events mon3
               in [mon1, mon2, mon3, mon4])
            else [])
      else [])"

definition on_moved ::
  "(string \<Rightarrow> string) \<Rightarrow> (path \<Rightarrow> path) \<Rightarrow> world \<Rightarrow> fs_event \<Rightarrow> file_monitor \<Rightarrow>
   file_monitor" where
  "on_moved lower abspath w event mon = last (mon # on_moved_steps lower abspath w event mon)"

section \<open>The user interface's database functions\<close>

text \<open>
  The functions of \<^verbatim>\<open>appp.py\<close> open a session of their own; \<open>None\<close> is
  \<^verbatim>\<open>get_db_session\<close> returning no session.
\<close>

definition get_deleted_files :: "filesystem \<Rightarrow> database option \<Rightarrow> File list" where
  "get_deleted_files fs session =
     (case session of
        None \<Rightarrow> []
      | Some d \<Rightarrow> filter (\<lambda>file. \<not> os_path_exists fs (file_path file)) (files d))"

text \<open>
  \<^verbatim>\<open>get_file_stats\<close>. Its first argument is \<^verbatim>\<open>str.capitalize\<close>. The size is kept in
  bytes: the source divides by \<open>1024 ^ 3\<close> in floating point and rounds for display.
\<close>

record file_stats =
  total_files :: nat
  total_size_bytes :: int
  type_counts :: "string \<rightharpoonup> nat"

fun count_types ::
  "(string \<Rightarrow> string) \<Rightarrow> string option list \<Rightarrow> (string \<rightharpoonup> nat) \<Rightarrow> (string \<rightharpoonup> nat)" where
  "count_types capitalize [] counts = counts"
| "count_types capitalize (ftype # rest) counts =
     (case ftype of
        None \<Rightarrow> count_types capitalize rest counts
      | Some t \<Rightarrow>
          (if t \<noteq> [] then
             (let type_name = capitalize t
              in count_types capitalize rest
                   (counts(type_name \<mapsto>
                      (case counts type_name of None \<Rightarrow> 0 | Some n \<Rightarrow> n) + 1)))
           else count_types capitalize rest counts))"

definition get_file_stats :: "(string \<Rightarrow> string) \<Rightarrow> database option \<Rightarrow> file_stats" where
  "get_file_stats capitalize session =
     (case session of
        None \<Rightarrow> \<lparr>total_files = 0, total_size_bytes = 0, type_counts = Map.empty\<rparr>
      | Some d \<Rightarrow>
          \<lparr>total_files = length (files d),
           total_size_bytes =
             sum_list (map the (filter (\<lambda>size. size \<noteq> None) (map file_size (files d)))),
           type_counts = count_types capitalize (map file_type (files d)) Map.empty\<rparr>)"

text \<open>
  \<^verbatim>\<open>cleanup_deleted_files\<close>: the loop deletes, from the session's rows, every row whose
  path does not exist and counts the deletions; the commit makes the remaining rows the
  table. The result is the success flag and the message, of which the count is kept.
\<close>

datatype message = Permanently_deleted nat | Could_not_connect

fun cleanup_loop :: "filesystem \<Rightarrow> File list \<Rightarrow> File list \<times> nat \<Rightarrow> File list \<times> nat" where
  "cleanup_loop fs [] acc = acc"
| "cleanup_loop fs (file # rest) (rows, deleted_count) =
     (if \<not> os_path_exists fs (file_path file)
      then cleanup_loop fs rest (remove1 file rows, deleted_count + 1)
      else cleanup_loop fs rest (rows, deleted_count))"

definition cleanup_deleted_files ::
  "filesystem \<Rightarrow> database option \<Rightarrow> (bool \<times> message) \<times> database option" where
  "cleanup_deleted_files fs session =
     (case session of
        Some d \<Rightarrow>
          (case cleanup_loop fs (files d) (files d, 0) of
             (rows, deleted_count) \<Rightarrow>
               ((True, Permanently_deleted deleted_count), Some (d\<lparr>files := rows\<rparr>)))
      | None \<Rightarrow> ((False, Could_not_connect), None))"

section \<open>Example states\<close>

text \<open>
  A store that indexes the one file \<^verbatim>\<open>/x/a.txt\<close>, filesystems and notifications around it.
  They are the concrete inputs of the checks below.
\<close>

definition a_stat :: stat_result where
  "a_stat = \<lparr>st_kind = Regular, st_size = 5, st_ctime = 10, st_mtime = 20\<rparr>"

definition a_file :: File where
  "a_file = \<lparr>file_id = 1, file_path = ''/x/a.txt'', file_name = ''a.txt'',
              file_extension = ''.txt'', file_size = Some 5, file_type = Some ''document'',
              created_time = 10, modified_time = 20, last_accessed = 25, access_count = 1\<rparr>"

definition a_manager :: manager where
  "a_manager = \<lparr>db = \<lparr>files = [a_file], file_events = []\<rparr>, log_records = []\<rparr>"

definition a_monitor :: file_monitor where
  "a_monitor = \<lparr>db_manager = a_manager, processed_events = {||}\<rparr>"

definition fs_empty :: filesystem where
  "fs_empty = Map.empty"

definition fs_a :: filesystem where
  "fs_a = [''/x/a.txt'' \<mapsto> a_stat]"

definition fs_b :: filesystem where
  "fs_b = [''/x/b.txt'' \<mapsto> a_stat]"

definition fs_pipe :: filesystem where
  "fs_pipe = [''/x/pipe'' \<mapsto> a_stat\<lparr>st_kind := Special\<rparr>]"

definition world_a1 :: world where
  "world_a1 = \<lparr>time_time = ''1.0'', datetime_now = 30, filesystem = fs_a\<rparr>"

definition world_a2 :: world where
  "world_a2 = \<lparr>time_time = ''1.5'', datetime_now = 31, filesystem = fs_a\<rparr>"

definition world_b :: world where
  "world_b = \<lparr>time_time = ''1.0'', datetime_now = 30, filesystem = fs_b\<rparr>"

definition world_pipe :: world where
  "world_pipe = \<lparr>time_time = ''1.0'', datetime_now = 30, filesystem = fs_pipe\<rparr>"

definition world_empty :: world where
  "world_empty = \<lparr>time_time = ''1.0'', datetime_now = 30, filesystem = fs_empty\<rparr>"

definition modified_a :: fs_event where
  "modified_a = \<lparr>is_directory = False, src_path = ''/x/a.txt'', dest_path = []\<rparr>"

definition deleted_b :: fs_event where
  "deleted_b = \<lparr>is_directory = False, src_path = ''/x/b.txt'', dest_path = []\<rparr>"

definition modified_pipe :: fs_event where
  "modified_pipe = \<lparr>is_directory = False, src_path = ''/x/pipe'', dest_path = []\<rparr>"

definition moved_a_b :: fs_event where
  "moved_a_b = \<lparr>is_directory = False, src_path = ''/x/a.txt'', dest_path = ''/x/b.txt''\<rparr>"

section \<open>Facts about the string functions\<close>

lemma ascii_upper_char_dot: "ascii_upper_char c = CHR ''.'' \<longleftrightarrow> c = CHR ''.''"
  unfolding ascii_upper_char_def by simp

lemma ascii_upper_char_slash: "ascii_upper_char c = CHR ''/'' \<longleftrightarrow> c = CHR ''/''"
  unfolding ascii_upper_char_def by simp

lemma ascii_lower_upper_char: "ascii_lower_char (ascii_upper_char c) = ascii_lower_char c"
  unfolding ascii_lower_char_def ascii_upper_char_def by simp

lemma ascii_lower_upper: "ascii_lower (ascii_upper s) = ascii_lower s"
  by (simp add: ascii_lower_def ascii_upper_def ascii_lower_upper_char)

lemma ascii_upper_char_isascii:
  "(of_char c :: nat) < 128 \<Longrightarrow> (of_char (ascii_upper_char c) :: nat) < 128"
  unfolding ascii_upper_char_def by (simp split: if_splits)

lemma isascii_ascii_upper: "isascii s \<Longrightarrow> isascii (ascii_upper s)"
  by (induction s) (simp_all add: isascii_def ascii_upper_def ascii_upper_char_isascii)

lemma isascii_drop: "isascii s \<Longrightarrow> isascii (drop n s)"
  unfolding isascii_def list_all_iff by (auto dest: in_set_dropD)

lemma rfind_map:
  assumes "\<And>c. g c = x \<longleftrightarrow> c = x"
  shows "rfind (map g p) x = rfind p x"
proof -
  have "filter (\<lambda>i. map g p ! i = x) (rev [0..<length p]) =
        filter (\<lambda>i. p ! i = x) (rev [0..<length p])"
    by (rule filter_cong) (auto simp: assms)
  then show ?thesis by (simp add: rfind_def)
qed

lemma rfind_bounds: "- 1 \<le> rfind p c \<and> rfind p c < int (length p)"
proof (cases "filter (\<lambda>i. p ! i = c) (rev [0..<length p])")
  case Nil
  then show ?thesis by (simp add: rfind_def)
next
  case (Cons i js)
  then have "i \<in> set (filter (\<lambda>i. p ! i = c) (rev [0..<length p]))" by simp
  then have "i < length p" by simp
  with Cons show ?thesis by (simp add: rfind_def)
qed

lemma rfind_absent: "c \<notin> set p \<Longrightarrow> rfind p c = - 1"
proof -
  assume "c \<notin> set p"
  then have "filter (\<lambda>i. p ! i = c) (rev [0..<length p]) = []"
    by (auto simp: filter_empty_conv)
  then show ?thesis by (simp add: rfind_def)
qed

lemma splitext_loop_map:
  assumes "\<And>c. g c = CHR ''.'' \<longleftrightarrow> c = CHR ''.''"
  shows "0 \<le> i \<Longrightarrow> d \<le> int (length p) \<Longrightarrow>
         splitext_loop (map g p) i d = splitext_loop p i d"
proof (induction p i d rule: splitext_loop.induct)
  case (1 p i d)
  show ?case
  proof (cases "i < d")
    case True
    with 1 have "nat i < length p" by simp
    then have eq: "(map g p ! nat i = CHR ''.'') = (p ! nat i = CHR ''.'')"
      by (simp add: assms)
    show ?thesis
    proof (cases "p ! nat i = CHR ''.''")
      case dot: True
      with True eq 1 show ?thesis
        by (subst splitext_loop.simps, subst (2) splitext_loop.simps) simp
    next
      case False
      with True eq show ?thesis
        by (subst splitext_loop.simps, subst (2) splitext_loop.simps) simp
    qed
  next
    case False
    then show ?thesis
      by (subst splitext_loop.simps, subst (2) splitext_loop.simps) simp
  qed
qed

lemma splitext_map:
  assumes "\<And>c. g c = CHR ''.'' \<longleftrightarrow> c = CHR ''.''"
    and "\<And>c. g c = CHR ''/'' \<longleftrightarrow> c = CHR ''/''"
  shows "splitext (map g p) = (map g (fst (splitext p)), map g (snd (splitext p)))"
proof -
  have b1: "0 \<le> rfind p (CHR ''/'') + 1"
    using rfind_bounds[of p "CHR ''/''"] by simp
  have b2: "rfind p (CHR ''.'') \<le> int (length p)"
    using rfind_bounds[of p "CHR ''.''"] by simp
  show ?thesis
    unfolding splitext_def Let_def
    by (simp add: rfind_map[of g, OF assms(1)] rfind_map[of g, OF assms(2)]
        splitext_loop_map[of g, OF assms(1) b1 b2] take_map drop_map
        del: splitext_loop.simps)
qed

lemma splitext_ascii_upper:
  "snd (splitext (ascii_upper p)) = ascii_upper (snd (splitext p))"
proof -
  have "splitext (ascii_upper p) =
        (ascii_upper (fst (splitext p)), ascii_upper (snd (splitext p)))"
    unfolding ascii_upper_def
    by (rule splitext_map[OF ascii_upper_char_dot ascii_upper_char_slash])
  then show ?thesis by simp
qed

lemma splitext_snd_drop: "\<exists>n. snd (splitext p) = drop n p"
proof (cases "rfind p (CHR ''/'') < rfind p (CHR ''.'') \<and>
              splitext_loop p (rfind p (CHR ''/'') + 1) (rfind p (CHR ''.''))")
  case True
  then have "snd (splitext p) = drop (nat (rfind p (CHR ''.''))) p"
    by (simp add: splitext_def Let_def del: splitext_loop.simps)
  then show ?thesis by blast
next
  case False
  then have "snd (splitext p) = drop (length p) p"
    by (auto simp: splitext_def Let_def simp del: splitext_loop.simps)
  then show ?thesis by blast
qed

lemma isascii_splitext: "isascii p \<Longrightarrow> isascii (snd (splitext p))"
  using splitext_snd_drop[of p] isascii_drop by auto

lemma splitext_no_dot: "CHR ''.'' \<notin> set p \<Longrightarrow> snd (splitext p) = []"
proof -
  assume "CHR ''.'' \<notin> set p"
  then have "rfind p (CHR ''.'') = - 1" by (rule rfind_absent)
  moreover have "- 1 \<le> rfind p (CHR ''/'')" using rfind_bounds[of p "CHR ''/''"] by simp
  ultimately show ?thesis by (simp add: splitext_def Let_def del: splitext_loop.simps)
qed

lemma type_map_cat: "type_map e = Some t \<Longrightarrow> t \<in> categories"
proof -
  assume "type_map e = Some t"
  then have "(e, t) \<in> set
     [(''.txt'', ''document''), (''.doc'', ''document''), (''.docx'', ''document''),
      (''.pdf'', ''document''), (''.pptx'', ''document''), (''.xlsx'', ''document''),
      (''.jpg'', ''image''), (''.jpeg'', ''image''), (''.png'', ''image''),
      (''.gif'', ''image''), (''.bmp'', ''image''), (''.svg'', ''image''), (''.webp'', ''image''),
      (''.mp4'', ''video''), (''.avi'', ''video''), (''.mov'', ''video''),
      (''.mkv'', ''video''), (''.wmv'', ''video''), (''.flv'', ''video''),
      (''.mp3'', ''audio''), (''.wav'', ''audio''), (''.m4a'', ''audio''),
      (''.flac'', ''audio''), (''.aac'', ''audio''),
      (''.zip'', ''archive''), (''.rar'', ''archive''), (''.7z'', ''archive''),
      (''.py'', ''other''), (''.java'', ''other''), (''.js'', ''other''),
      (''.html'', ''other''), (''.css'', ''other''), (''.cpp'', ''other''), (''.c'', ''other'')]"
    unfolding type_map_def by (rule map_of_SomeD)
  then have "t \<in> snd ` set
     [(''.txt'', ''document''), (''.doc'', ''document''), (''.docx'', ''document''),
      (''.pdf'', ''document''), (''.pptx'', ''document''), (''.xlsx'', ''document''),
      (''.jpg'', ''image''), (''.jpeg'', ''image''), (''.png'', ''image''),
      (''.gif'', ''image''), (''.bmp'', ''image''), (''.svg'', ''image''), (''.webp'', ''image''),
      (''.mp4'', ''video''), (''.avi'', ''video''), (''.mov'', ''video''),
      (''.mkv'', ''video''), (''.wmv'', ''video''), (''.flv'', ''video''),
      (''.mp3'', ''audio''), (''.wav'', ''audio''), (''.m4a'', ''audio''),
      (''.flac'', ''audio''), (''.aac'', ''audio''),
      (''.zip'', ''archive''), (''.rar'', ''archive''), (''.7z'', ''archive''),
      (''.py'', ''other''), (''.java'', ''other''), (''.js'', ''other''),
      (''.html'', ''other''), (''.css'', ''other''), (''.cpp'', ''other''), (''.c'', ''other'')]"
    by (rule image_eqI[where x = "(e, t)", rotated]) simp
  then show ?thesis by (simp add: categories_def)
qed

lemma get_file_type_cat: "get_file_type lower p \<in> categories"
proof (cases "type_map (lower (snd (splitext p)))")
  case None
  then show ?thesis by (simp add: get_file_type_def categories_def)
next
  case (Some t)
  then show ?thesis by (simp add: get_file_type_def type_map_cat)
qed

lemma ui_get_file_type_cat: "ui_get_file_type lower p \<in> categories"
  by (simp add: ui_get_file_type_def Let_def categories_def)

text \<open>The if-chain of the user interface against the table: all but two entries agree.\<close>

lemma ui_chain_type_map:
  "(if e \<in> set [''.txt'', ''.doc'', ''.docx'', ''.pdf'', ''.pptx'', ''.xlsx'']
      then ''document''
    else if e \<in> set [''.jpg'', ''.jpeg'', ''.png'', ''.gif'', ''.bmp'', ''.svg'', ''.webp'']
      then ''image''
    else if e \<in> set [''.mp4'', ''.avi'', ''.mov'', ''.mkv'', ''.wmv'']
      then ''video''
    else if e \<in> set [''.mp3'', ''.wav'', ''.m4a'', ''.flac'']
      then ''audio''
    else if e \<in> set [''.zip'', ''.rar'', ''.7z'']
      then ''archive''
    else ''other'') =
   (if e = ''.flv'' \<or> e = ''.aac'' then ''other''
    else case type_map e of None \<Rightarrow> ''other'' | Some t \<Rightarrow> t)"
  unfolding type_map_def by simp

lemma ui_get_file_type_table:
  "ui_get_file_type lower p =
     (if lower (snd (splitext p)) = ''.flv'' \<or> lower (snd (splitext p)) = ''.aac''
      then ''other'' else get_file_type lower p)"
  unfolding ui_get_file_type_def get_file_type_def Let_def by (rule ui_chain_type_map)

lemma type_map_empty: "type_map [] = None"
  by (simp add: type_map_def)

section \<open>Facts about rows and tables\<close>

lemma find_Some_mem: "find P xs = Some x \<Longrightarrow> x \<in> set xs \<and> P x"
  by (induction xs) (auto split: if_splits)

lemma find_exists: "p \<in> g ` set xs \<Longrightarrow> \<exists>f. find (\<lambda>x. g x = p) xs = Some f"
  by (cases "find (\<lambda>x. g x = p) xs") (auto simp: find_None_iff)

lemma query_first_None: "query_first p d = None \<longleftrightarrow> p \<notin> file_path ` set (files d)"
  by (auto simp: query_first_def find_None_iff)

lemma distinct_head_other:
  "distinct (map g (x # xs)) \<Longrightarrow> g x = p \<Longrightarrow> \<forall>y\<in>set xs. g y \<noteq> p"
  by (metis distinct.simps(2) image_eqI list.simps(9) set_map)

lemma remove1_find_distinct:
  "distinct (map g xs) \<Longrightarrow> find (\<lambda>x. g x = p) xs = Some f \<Longrightarrow>
   remove1 f xs = filter (\<lambda>x. g x \<noteq> p) xs"
proof (induction xs)
  case Nil
  then show ?case by simp
next
  case (Cons x xs)
  show ?case
  proof (cases "g x = p")
    case True
    with Cons.prems have "f = x" by simp
    moreover from distinct_head_other[OF Cons.prems(1) True]
    have "filter (\<lambda>x. g x \<noteq> p) xs = xs" by (simp add: filter_id_conv)
    ultimately show ?thesis using True by simp
  next
    case False
    with Cons.prems have fnd: "find (\<lambda>x. g x = p) xs = Some f" by simp
    then have "g f = p" using find_Some_mem[of "\<lambda>x. g x = p" xs f] by simp
    with False have "x \<noteq> f" by auto
    with Cons fnd False show ?thesis by simp
  qed
qed

lemma update_row_map: "g new = g old \<Longrightarrow> map g (update_row old new xs) = map g xs"
  by (induction xs) auto

lemma update_row_filter:
  "distinct (map g xs) \<Longrightarrow> find (\<lambda>x. g x = p) xs = Some old \<Longrightarrow> g new = p \<Longrightarrow>
   filter (\<lambda>x. g x = p) (update_row old new xs) = [new]"
proof (induction xs)
  case Nil
  then show ?case by simp
next
  case (Cons x xs)
  show ?case
  proof (cases "g x = p")
    case True
    with Cons.prems have "old = x" by simp
    moreover from distinct_head_other[OF Cons.prems(1) True]
    have "filter (\<lambda>x. g x = p) xs = []" by (simp add: filter_empty_conv)
    ultimately show ?thesis using True Cons.prems by simp
  next
    case False
    with Cons.prems have fnd: "find (\<lambda>x. g x = p) xs = Some old" by simp
    then have "g old = p" using find_Some_mem[of "\<lambda>x. g x = p" xs old] by simp
    with False have "x \<noteq> old" by auto
    with Cons fnd False show ?thesis by simp
  qed
qed

lemma find_filter_distinct:
  "distinct (map g xs) \<Longrightarrow> find (\<lambda>x. g x = p) xs = Some old \<Longrightarrow>
   filter (\<lambda>x. g x = p) xs = [old]"
proof (induction xs)
  case Nil
  then show ?case by simp
next
  case (Cons x xs)
  show ?case
  proof (cases "g x = p")
    case True
    with Cons.prems have "old = x" by simp
    moreover from distinct_head_other[OF Cons.prems(1) True]
    have "filter (\<lambda>x. g x = p) xs = []" by (simp add: filter_empty_conv)
    ultimately show ?thesis using True by simp
  next
    case False
    with Cons show ?thesis by simp
  qed
qed

section \<open>Facts about the manager's operations\<close>

lemma remove_file_files:
  assumes "distinct (map file_path (files (db m)))"
  shows "files (db (remove_file now p m)) = filter (\<lambda>f. file_path f \<noteq> p) (files (db m))"
proof (cases "query_first p (db m)")
  case None
  then have "p \<notin> file_path ` set (files (db m))" by (simp add: query_first_None)
  then have "filter (\<lambda>f. file_path f \<noteq> p) (files (db m)) = files (db m)"
    by (auto simp: filter_id_conv)
  with None show ?thesis by (simp add: remove_file_def)
next
  case (Some f)
  then have "remove1 f (files (db m)) = filter (\<lambda>f. file_path f \<noteq> p) (files (db m))"
    unfolding query_first_def using remove1_find_distinct[OF assms] by blast
  with Some show ?thesis by (simp add: remove_file_def log_event_def)
qed

lemma remove_file_miss:
  assumes "p \<notin> file_path ` set (files (db m))"
  shows "remove_file now p m =
         m\<lparr>log_records := log_records m @ [(WARNING, ''File not found in database: '' @ p)]\<rparr>"
proof -
  from assms have "query_first p (db m) = None" by (simp add: query_first_None)
  then show ?thesis by (simp add: remove_file_def)
qed

lemma add_file_paths:
  assumes "os_path_isfile fs p"
  shows "file_path ` set (files (db (add_file lower fs now p m))) =
         insert p (file_path ` set (files (db m)))"
proof -
  from assms obtain stat where st: "fs p = Some stat"
    by (auto simp: os_path_isfile_def split: option.splits)
  then have ex: "os_path_exists fs p" by (simp add: os_path_exists_def)
  show ?thesis
  proof (cases "query_first p (db m)")
    case None
    with st ex assms show ?thesis by (simp add: add_file_def log_event_def)
  next
    case (Some f)
    then have fp: "file_path f = p" "f \<in> set (files (db m))"
      unfolding query_first_def using find_Some_mem[of "\<lambda>x. file_path x = p"] by blast+
    let ?new = "f\<lparr>modified_time := st_mtime stat, last_accessed := now,
                   file_size := Some (st_size stat)\<rparr>"
    have "map file_path (update_row f ?new (files (db m))) = map file_path (files (db m))"
      by (rule update_row_map) simp
    then have "file_path ` set (update_row f ?new (files (db m))) =
               file_path ` set (files (db m))"
      by (metis set_map)
    moreover have "files (db (add_file lower fs now p m)) = update_row f ?new (files (db m))"
      using Some st ex assms by (simp add: add_file_def log_event_def)
    ultimately show ?thesis using fp by auto
  qed
qed

lemma update_file_tracked:
  assumes "distinct (map file_path (files (db m)))"
    and "p \<in> file_path ` set (files (db m))"
    and "os_path_exists fs p"
  shows "map file_path (files (db (update_file lower fs now p m))) = map file_path (files (db m)) \<and>
         map access_count (filter (\<lambda>f. file_path f = p) (files (db (update_file lower fs now p m)))) =
           map (\<lambda>f. access_count f + 1) (filter (\<lambda>f. file_path f = p) (files (db m))) \<and>
         map (\<lambda>e. (event_file_path e, event_type e))
             (file_events (db (update_file lower fs now p m))) =
           map (\<lambda>e. (event_file_path e, event_type e)) (file_events (db m)) @
           [(p, ''modified'')]"
proof -
  from assms(2) obtain f where f: "find (\<lambda>x. file_path x = p) (files (db m)) = Some f"
    using find_exists[of p file_path "files (db m)"] by blast
  then have fp: "file_path f = p" using find_Some_mem[of "\<lambda>x. file_path x = p"] by blast
  have old: "filter (\<lambda>f. file_path f = p) (files (db m)) = [f]"
    using find_filter_distinct[OF assms(1) f] .
  from assms(3) obtain stat where st: "fs p = Some stat"
    by (auto simp: os_path_exists_def split: option.splits)
  let ?new = "f\<lparr>modified_time := st_mtime stat, file_size := Some (st_size stat),
                 last_accessed := now, access_count := access_count f + 1\<rparr>"
  have fl: "files (db (update_file lower fs now p m)) = update_row f ?new (files (db m))"
    using assms(3) st f by (simp add: update_file_def query_first_def log_event_def)
  have ev: "file_events (db (update_file lower fs now p m)) = file_events (db m) @
        [\<lparr>event_id = new_id (map event_id (file_events (db m))), event_file_path = p,
          event_type = ''modified'', timestamp = now\<rparr>]"
    using assms(3) st f by (simp add: update_file_def query_first_def log_event_def)
  have "filter (\<lambda>x. file_path x = p) (update_row f ?new (files (db m))) = [?new]"
    by (rule update_row_filter[OF assms(1) f]) (simp add: fp)
  moreover have "map file_path (update_row f ?new (files (db m))) =
                 map file_path (files (db m))"
    by (rule update_row_map) simp
  ultimately show ?thesis unfolding fl old ev by simp
qed

lemma update_file_absent: "\<not> os_path_exists fs p \<Longrightarrow> update_file lower fs now p m = m"
  by (simp add: update_file_def)

section \<open>Facts about the monitor\<close>

lemma clean_old_events_manager: "db_manager (clean_old_events mon) = db_manager mon"
  by (simp add: clean_old_events_def)

lemma on_modified_fresh:
  assumes "\<not> is_directory event"
    and "''modified_'' @ abspath (src_path event) @ ''_'' @ time_time w |\<notin>|
         processed_events mon"
  shows "db_manager (on_modified lower abspath w event mon) =
           update_file lower (filesystem w) (datetime_now w) (abspath (src_path event))
             (db_manager mon) \<and>
         processed_events (on_modified lower abspath w event mon) |\<subseteq>|
           finsert (''modified_'' @ abspath (src_path event) @ ''_'' @ time_time w)
             (processed_events mon)"
  using assms by (simp add: on_modified_def Let_def clean_old_events_def)

section \<open>Facts about the user interface's functions\<close>

lemma cleanup_loop_filter:
  "\<forall>f\<in>set pre. os_path_exists fs (file_path f) \<Longrightarrow>
   cleanup_loop fs xs (pre @ xs, n) =
     (pre @ filter (\<lambda>f. os_path_exists fs (file_path f)) xs,
      n + length (filter (\<lambda>f. \<not> os_path_exists fs (file_path f)) xs))"
proof (induction xs arbitrary: pre n)
  case Nil
  then show ?case by simp
next
  case (Cons x xs)
  show ?case
  proof (cases "os_path_exists fs (file_path x)")
    case True
    with Cons.prems have "\<forall>f\<in>set (pre @ [x]). os_path_exists fs (file_path f)" by simp
    from Cons.IH[OF this, of n] True show ?thesis by simp
  next
    case False
    with Cons.prems have "x \<notin> set pre" by auto
    then have "remove1 x (pre @ x # xs) = pre @ xs" by (simp add: remove1_append)
    with Cons.IH[OF Cons.prems, of "n + 1"] False show ?thesis by simp
  qed
qed

lemma cleanup_loop_table:
  "cleanup_loop fs (files d) (files d, 0) =
     (filter (\<lambda>f. os_path_exists fs (file_path f)) (files d),
      length (filter (\<lambda>f. \<not> os_path_exists fs (file_path f)) (files d)))"
  using cleanup_loop_filter[of "[]" fs "files d" 0] by simp

lemma cleanup_deleted_files_Some:
  "cleanup_deleted_files fs (Some d) =
     ((True, Permanently_deleted
         (length (filter (\<lambda>f. \<not> os_path_exists fs (file_path f)) (files d)))),
      Some (d\<lparr>files := filter (\<lambda>f. os_path_exists fs (file_path f)) (files d)\<rparr>))"
  by (simp add: cleanup_deleted_files_def cleanup_loop_table)

lemma count_types_lookup:
  "count_types capitalize ts c k =
     (let n = length (filter (\<lambda>ft. case ft of None \<Rightarrow> False
                                   | Some t \<Rightarrow> t \<noteq> [] \<and> capitalize t = k) ts)
      in case c k of None \<Rightarrow> (if n = 0 then None else Some n) | Some a \<Rightarrow> Some (a + n))"
proof (induction ts arbitrary: c)
  case Nil
  then show ?case by (simp split: option.splits)
next
  case (Cons ft ts)
  show ?case
  proof (cases ft)
    case None
    then show ?thesis by (simp add: Cons.IH)
  next
    case (Some t)
    show ?thesis
    proof (cases "t = []")
      case True
      with Some show ?thesis by (simp add: Cons.IH)
    next
      case False
      with Some show ?thesis
        by (simp add: Cons.IH Let_def split: option.splits)
    qed
  qed
qed

lemma sum_sizes:
  "sum_list (map the (filter (\<lambda>size. size \<noteq> None) (map file_size xs))) =
   (\<Sum>f\<leftarrow>xs. case file_size f of None \<Rightarrow> 0 | Some s \<Rightarrow> s)"
  by (induction xs) (auto split: option.splits)

lemmas example_defs = a_stat_def a_file_def a_manager_def a_monitor_def fs_empty_def fs_a_def
  fs_b_def fs_pipe_def world_a1_def world_a2_def world_b_def world_pipe_def world_empty_def
  modified_a_def deleted_b_def modified_pipe_def moved_a_b_def


section \<open>The claims\<close>

subsection \<open>C1: a move is two committed steps\<close>

text \<open>
  Claim C1 says that a move from A to B is applied as one atomic step, so that no reachable
  state has A's record removed and B's record not yet inserted. The handler does otherwise:
  it removes A, sleeps, and adds B, each with a commit of its own. As amended: when a move
  notification is processed (not a directory, key not seen before, A and B different paths,
  B a regular file on disk), the handler passes through four states; in the second one the
  manager is exactly the result of \<open>remove_file\<close> on A, so A has no record there and B
  has a record only if it had one before the move; in the final state A has no record and
  B has one.
\<close>

theorem on_moved_two_steps:
  assumes "\<not> is_directory event"
    and "''moved_'' @ abspath (src_path event) @ ''_'' @ abspath (dest_path event) @ ''_'' @
         time_time w |\<notin>| processed_events mon"
    and "abspath (src_path event) \<noteq> abspath (dest_path event)"
    and "distinct (map file_path (files (db (db_manager mon))))"
    and "os_path_isfile (filesystem w) (abspath (dest_path event))"
  shows "length (on_moved_steps lower abspath w event mon) = 4 \<and>
         db_manager (on_moved_steps lower abspath w event mon ! 1) =
           remove_file (datetime_now w) (abspath (src_path event)) (db_manager mon) \<and>
         abspath (src_path event) \<notin>
           file_path ` set (files (db (db_manager (on_moved_steps lower abspath w event mon ! 1)))) \<and>
         (abspath (dest_path event) \<in>
            file_path ` set (files (db (db_manager (on_moved_steps lower abspath w event mon ! 1)))) \<longleftrightarrow>
          abspath (dest_path event) \<in> file_path ` set (files (db (db_manager mon)))) \<and>
         abspath (src_path event) \<notin>
           file_path ` set (files (db (db_manager (on_moved lower abspath w event mon)))) \<and>
         abspath (dest_path event) \<in>
           file_path ` set (files (db (db_manager (on_moved lower abspath w event mon))))"
proof -
  let ?src = "abspath (src_path event)"
  let ?dest = "abspath (dest_path event)"
  let ?m2 = "remove_file (datetime_now w) ?src (db_manager mon)"
  let ?m3 = "add_file lower (filesystem w) (datetime_now w) ?dest ?m2"
  have steps: "on_moved_steps lower abspath w event mon =
      [mon\<lparr>processed_events := finsert (''moved_'' @ ?src @ ''_'' @ ?dest @ ''_'' @ time_time w)
              (processed_events mon)\<rparr>,
       mon\<lparr>processed_events := finsert (''moved_'' @ ?src @ ''_'' @ ?dest @ ''_'' @ time_time w)
              (processed_events mon), db_manager := ?m2\<rparr>,
       mon\<lparr>processed_events := finsert (''moved_'' @ ?src @ ''_'' @ ?dest @ ''_'' @ time_time w)
              (processed_events mon), db_manager := ?m3\<rparr>,
       clean_old_events
         (mon\<lparr>processed_events := finsert (''moved_'' @ ?src @ ''_'' @ ?dest @ ''_'' @ time_time w)
              (processed_events mon), db_manager := ?m3\<rparr>)]"
    using assms(1,2) by (simp add: on_moved_steps_def Let_def)
  have f2: "files (db ?m2) = filter (\<lambda>f. file_path f \<noteq> ?src) (files (db (db_manager mon)))"
    by (rule remove_file_files[OF assms(4)])
  have p2: "file_path ` set (files (db ?m2)) = file_path ` set (files (db (db_manager mon))) - {?src}"
    unfolding f2 by auto
  have p3: "file_path ` set (files (db ?m3)) = insert ?dest (file_path ` set (files (db ?m2)))"
    by (rule add_file_paths[OF assms(5)])
  have last: "db_manager (on_moved lower abspath w event mon) = ?m3"
    unfolding on_moved_def steps by (simp add: clean_old_events_manager)
  have a: "length (on_moved_steps lower abspath w event mon) = 4" unfolding steps by simp
  have b: "db_manager (on_moved_steps lower abspath w event mon ! 1) = ?m2" unfolding steps by simp
  have c: "?src \<notin> file_path ` set (files (db ?m2))" unfolding p2 by simp
  have d: "?dest \<in> file_path ` set (files (db ?m2)) \<longleftrightarrow>
           ?dest \<in> file_path ` set (files (db (db_manager mon)))"
    unfolding p2 using assms(3) by auto
  have e: "?src \<notin> file_path ` set (files (db ?m3))" unfolding p3 p2 using assms(3) by simp
  have f: "?dest \<in> file_path ` set (files (db ?m3))" unfolding p3 by simp
  show ?thesis unfolding b last using a c d e f by simp
qed

text \<open>
  Witness for C1: the store indexes \<^verbatim>\<open>/x/a.txt\<close>, which is moved to \<^verbatim>\<open>/x/b.txt\<close>.
\<close>

theorem on_moved_two_steps_witness:
  "\<not> is_directory moved_a_b \<and>
   id (src_path moved_a_b) \<noteq> id (dest_path moved_a_b) \<and>
   os_path_isfile (filesystem world_b) (id (dest_path moved_a_b)) \<and>
   length (on_moved_steps ascii_lower id world_b moved_a_b a_monitor) = 4 \<and>
   ''/x/a.txt'' \<notin>
     file_path ` set (files (db (db_manager (on_moved_steps ascii_lower id world_b moved_a_b a_monitor ! 1)))) \<and>
   ''/x/a.txt'' \<notin> file_path ` set (files (db (db_manager (on_moved ascii_lower id world_b moved_a_b a_monitor)))) \<and>
   ''/x/b.txt'' \<in> file_path ` set (files (db (db_manager (on_moved ascii_lower id world_b moved_a_b a_monitor))))"
proof -
  have h1: "\<not> is_directory moved_a_b" by (simp add: moved_a_b_def)
  have h2: "''moved_'' @ id (src_path moved_a_b) @ ''_'' @ id (dest_path moved_a_b) @ ''_'' @
         time_time world_b |\<notin>| processed_events a_monitor"
    by (simp add: a_monitor_def)
  have h3: "id (src_path moved_a_b) \<noteq> id (dest_path moved_a_b)" by (simp add: moved_a_b_def)
  have h4: "distinct (map file_path (files (db (db_manager a_monitor))))"
    by (simp add: a_monitor_def a_manager_def)
  have h5: "os_path_isfile (filesystem world_b) (id (dest_path moved_a_b))"
    by (simp add: world_b_def moved_a_b_def fs_b_def a_stat_def os_path_isfile_def)
  have s: "id (src_path moved_a_b) = ''/x/a.txt''" "id (dest_path moved_a_b) = ''/x/b.txt''"
    by (simp_all add: moved_a_b_def)
  show ?thesis
    using on_moved_two_steps[where lower = ascii_lower and abspath = id and event = moved_a_b and w = world_b
        and mon = a_monitor, OF h1 h2 h3 h4 h5] h1 h3 h5
    unfolding s by blast
qed

text \<open>
  Counterexample to C1 as stated: \<^verbatim>\<open>/x/a.txt\<close> is indexed, \<^verbatim>\<open>/x/b.txt\<close> is not, and in
  the second state of the move the table of files is empty: a reader sees neither.
\<close>

theorem on_moved_not_atomic_counterexample:
  "query_first ''/x/a.txt'' (db (db_manager a_monitor)) = Some a_file \<and>
   query_first ''/x/b.txt'' (db (db_manager a_monitor)) = None \<and>
   length (on_moved_steps ascii_lower id world_b moved_a_b a_monitor) = 4 \<and>
   files (db (db_manager (on_moved_steps ascii_lower id world_b moved_a_b a_monitor ! 1))) = [] \<and>
   map file_path (files (db (db_manager (on_moved ascii_lower id world_b moved_a_b a_monitor)))) =
     [''/x/b.txt'']"
  by (simp add: example_defs on_moved_def on_moved_steps_def Let_def query_first_def
      remove_file_def add_file_def os_path_exists_def os_path_isfile_def log_event_def
      clean_old_events_def fcard_finsert_if)

subsection \<open>C2: a Deleted event removes the row\<close>

text \<open>
  Claim C2 says that a Deleted event for an indexed path keeps the record in the store as a
  tombstone and appends a Deleted event. \<open>remove_file\<close> deletes the row instead. As
  amended: for a path with a record (paths being unique in the table), \<open>remove_file\<close>
  removes that row and no other, so that the path has no record afterwards, appends one
  event of type \<open>deleted\<close> for the path to the event log, and logs nothing.
\<close>

theorem remove_file_deletes_row:
  assumes "distinct (map file_path (files (db m)))"
    and "p \<in> file_path ` set (files (db m))"
  shows "files (db (remove_file now p m)) = filter (\<lambda>f. file_path f \<noteq> p) (files (db m)) \<and>
         p \<notin> file_path ` set (files (db (remove_file now p m))) \<and>
         file_events (db (remove_file now p m)) = file_events (db m) @
           [\<lparr>event_id = new_id (map event_id (file_events (db m))), event_file_path = p,
             event_type = ''deleted'', timestamp = now\<rparr>] \<and>
         log_records (remove_file now p m) = log_records m"
proof -
  from assms(2) obtain f where f: "query_first p (db m) = Some f"
    unfolding query_first_def using find_exists[of p file_path "files (db m)"] by blast
  have fl: "files (db (remove_file now p m)) = filter (\<lambda>f. file_path f \<noteq> p) (files (db m))"
    by (rule remove_file_files[OF assms(1)])
  have gone: "p \<notin> file_path ` set (files (db (remove_file now p m)))"
    unfolding fl by auto
  from f have rest: "file_events (db (remove_file now p m)) = file_events (db m) @
           [\<lparr>event_id = new_id (map event_id (file_events (db m))), event_file_path = p,
             event_type = ''deleted'', timestamp = now\<rparr>] \<and>
         log_records (remove_file now p m) = log_records m"
    by (simp add: remove_file_def log_event_def)
  from fl gone rest show ?thesis by simp
qed

text \<open>Witness for C2: the Deleted event for the indexed \<^verbatim>\<open>/x/a.txt\<close>.\<close>

theorem remove_file_deletes_row_witness:
  "distinct (map file_path (files (db a_manager))) \<and>
   ''/x/a.txt'' \<in> file_path ` set (files (db a_manager)) \<and>
   files (db (remove_file 30 ''/x/a.txt'' a_manager)) = [] \<and>
   map event_type (file_events (db (remove_file 30 ''/x/a.txt'' a_manager))) = [''deleted'']"
proof -
  have h1: "distinct (map file_path (files (db a_manager)))"
    by (simp add: a_manager_def)
  have h2: "''/x/a.txt'' \<in> file_path ` set (files (db a_manager))"
    by (simp add: a_manager_def a_file_def)
  show ?thesis
    using remove_file_deletes_row[OF h1 h2, of 30] h1 h2
    by (simp add: a_manager_def a_file_def)
qed

text \<open>
  Counterexample to C2 as stated: after the Deleted event for the indexed \<^verbatim>\<open>/x/a.txt\<close>
  the table of files is empty, and the listing of deleted files shows nothing.
\<close>

theorem remove_file_not_retained_counterexample:
  "query_first ''/x/a.txt'' (db a_manager) = Some a_file \<and>
   files (db (remove_file 30 ''/x/a.txt'' a_manager)) = [] \<and>
   get_deleted_files fs_empty (Some (db (remove_file 30 ''/x/a.txt'' a_manager))) = []"
  by (simp add: example_defs query_first_def remove_file_def log_event_def get_deleted_files_def)


subsection \<open>C3: Modified notifications are not coalesced\<close>

text \<open>
  Claim C3 says that N rapid Modified notifications for one path are coalesced, under the
  key (path, kind), into one update and one logged event. The key of \<open>on_modified\<close>
  also holds the reading of \<^verbatim>\<open>time.time()\<close>, so notifications at different readings
  never share a key. As amended: N Modified notifications for the same path, none for a
  directory, at pairwise different clock readings whose keys are not yet remembered, for a
  path that has a record and exists on disk at each of them, produce N index updates (the
  access count grows by N) and N logged events of type \<open>modified\<close>; the set of paths
  in the index is unchanged.
\<close>

theorem on_modified_no_coalescing:
  assumes nd: "\<not> is_directory event" and p: "p = abspath (src_path event)"
    and "distinct (map time_time ws)"
    and "\<forall>w\<in>set ws. ''modified_'' @ p @ ''_'' @ time_time w |\<notin>| processed_events mon"
    and "\<forall>w\<in>set ws. os_path_exists (filesystem w) p"
    and "distinct (map file_path (files (db (db_manager mon))))"
    and "p \<in> file_path ` set (files (db (db_manager mon)))"
  shows
   "map file_path (files (db (db_manager (fold (\<lambda>w. on_modified lower abspath w event) ws mon)))) =
      map file_path (files (db (db_manager mon))) \<and>
    map access_count (filter (\<lambda>f. file_path f = p)
        (files (db (db_manager (fold (\<lambda>w. on_modified lower abspath w event) ws mon))))) =
      map (\<lambda>c. c + int (length ws))
        (map access_count (filter (\<lambda>f. file_path f = p) (files (db (db_manager mon))))) \<and>
    map (\<lambda>e. (event_file_path e, event_type e))
        (file_events (db (db_manager (fold (\<lambda>w. on_modified lower abspath w event) ws mon)))) =
      map (\<lambda>e. (event_file_path e, event_type e)) (file_events (db (db_manager mon))) @
      replicate (length ws) (p, ''modified'')"
  using assms(3-7)
proof (induction ws arbitrary: mon)
  case Nil
  then show ?case by simp
next
  case (Cons w ws)
  let ?mon1 = "on_modified lower abspath w event mon"
  let ?key = "\<lambda>w. ''modified_'' @ p @ ''_'' @ time_time w"
  from Cons.prems(2) have fresh: "?key w |\<notin>| processed_events mon" by simp
  from on_modified_fresh[where event = event and abspath = abspath and w = w and mon = mon
      and lower = lower, OF nd fresh[unfolded p]]
  have m1: "db_manager ?mon1 = update_file lower (filesystem w) (datetime_now w) p (db_manager mon)"
    and sub: "processed_events ?mon1 |\<subseteq>| finsert (?key w) (processed_events mon)"
    by (simp_all add: p)
  from Cons.prems(3) have ex: "os_path_exists (filesystem w) p" by simp
  from update_file_tracked[OF Cons.prems(4) Cons.prems(5) ex, where lower = lower
      and now = "datetime_now w"]
  have paths1: "map file_path (files (db (db_manager ?mon1))) =
                map file_path (files (db (db_manager mon)))"
    and acc1: "map access_count (filter (\<lambda>f. file_path f = p) (files (db (db_manager ?mon1)))) =
           map (\<lambda>f. access_count f + 1)
             (filter (\<lambda>f. file_path f = p) (files (db (db_manager mon))))"
    and ev1: "map (\<lambda>e. (event_file_path e, event_type e))
               (file_events (db (db_manager ?mon1))) =
           map (\<lambda>e. (event_file_path e, event_type e)) (file_events (db (db_manager mon))) @
           [(p, ''modified'')]"
    unfolding m1 by simp_all
  have d1: "distinct (map time_time ws)" using Cons.prems(1) by simp
  have f1: "\<forall>w'\<in>set ws. ?key w' |\<notin>| processed_events ?mon1"
  proof
    fix w' assume w': "w' \<in> set ws"
    with distinct_head_other[OF Cons.prems(1) refl] have "time_time w' \<noteq> time_time w"
      by blast
    then have "?key w' \<noteq> ?key w" by simp
    moreover from w' Cons.prems(2) have "?key w' |\<notin>| processed_events mon" by simp
    ultimately show "?key w' |\<notin>| processed_events ?mon1" using sub by auto
  qed
  have e1: "\<forall>w\<in>set ws. os_path_exists (filesystem w) p" using Cons.prems(3) by simp
  have dp1: "distinct (map file_path (files (db (db_manager ?mon1))))"
    using paths1 Cons.prems(4) by simp
  have t1: "p \<in> file_path ` set (files (db (db_manager ?mon1)))"
    using paths1 Cons.prems(5) by (metis set_map)
  note IH = Cons.IH[OF d1 f1 e1 dp1 t1]
  have fold_eq: "fold (\<lambda>w. on_modified lower abspath w event) (w # ws) mon =
        fold (\<lambda>w. on_modified lower abspath w event) ws ?mon1" by simp
  have acc: "map (\<lambda>c. c + int (length ws))
        (map access_count (filter (\<lambda>f. file_path f = p) (files (db (db_manager ?mon1))))) =
      map (\<lambda>c. c + int (length (w # ws)))
        (map access_count (filter (\<lambda>f. file_path f = p) (files (db (db_manager mon)))))"
    unfolding acc1 by simp
  have ev: "map (\<lambda>e. (event_file_path e, event_type e)) (file_events (db (db_manager ?mon1))) @
      replicate (length ws) (p, ''modified'') =
      map (\<lambda>e. (event_file_path e, event_type e)) (file_events (db (db_manager mon))) @
      replicate (length (w # ws)) (p, ''modified'')"
    unfolding ev1 by simp
  show ?case unfolding fold_eq using IH paths1 acc ev by simp
qed

text \<open>
  Witness for C3: two Modified notifications for the indexed \<^verbatim>\<open>/x/a.txt\<close>, at the clock
  readings \<^verbatim>\<open>1.0\<close> and \<^verbatim>\<open>1.5\<close>.
\<close>

theorem on_modified_no_coalescing_witness:
  "\<not> is_directory modified_a \<and>
   distinct (map time_time [world_a1, world_a2]) \<and>
   map access_count (filter (\<lambda>f. file_path f = ''/x/a.txt'')
     (files (db (db_manager
        (fold (\<lambda>w. on_modified ascii_lower id w modified_a) [world_a1, world_a2] a_monitor))))) = [3] \<and>
   map (\<lambda>e. (event_file_path e, event_type e))
     (file_events (db (db_manager
        (fold (\<lambda>w. on_modified ascii_lower id w modified_a) [world_a1, world_a2] a_monitor)))) =
     [(''/x/a.txt'', ''modified''), (''/x/a.txt'', ''modified'')]"
proof -
  have h1: "\<not> is_directory modified_a" by (simp add: modified_a_def)
  have h2: "''/x/a.txt'' = id (src_path modified_a)" by (simp add: modified_a_def)
  have h3: "distinct (map time_time [world_a1, world_a2])"
    by (simp add: world_a1_def world_a2_def)
  have h4: "\<forall>w\<in>set [world_a1, world_a2].
      ''modified_'' @ ''/x/a.txt'' @ ''_'' @ time_time w |\<notin>| processed_events a_monitor"
    by (simp add: a_monitor_def)
  have h5: "\<forall>w\<in>set [world_a1, world_a2]. os_path_exists (filesystem w) ''/x/a.txt''"
    by (simp add: world_a1_def world_a2_def fs_a_def os_path_exists_def)
  have h6: "distinct (map file_path (files (db (db_manager a_monitor))))"
    by (simp add: a_monitor_def a_manager_def)
  have h7: "''/x/a.txt'' \<in> file_path ` set (files (db (db_manager a_monitor)))"
    by (simp add: a_monitor_def a_manager_def a_file_def)
  have old: "map access_count (filter (\<lambda>f. file_path f = ''/x/a.txt'')
      (files (db (db_manager a_monitor)))) = [1]"
    by (simp add: a_monitor_def a_manager_def a_file_def)
  have oldev: "file_events (db (db_manager a_monitor)) = []"
    by (simp add: a_monitor_def a_manager_def)
  from on_modified_no_coalescing[where lower = ascii_lower and abspath = id and event = modified_a and p = "''/x/a.txt''"
      and ws = "[world_a1, world_a2]" and mon = a_monitor, OF h1 h2 h3 h4 h5 h6 h7]
  have "map access_count (filter (\<lambda>f. file_path f = ''/x/a.txt'')
     (files (db (db_manager
        (fold (\<lambda>w. on_modified ascii_lower id w modified_a) [world_a1, world_a2] a_monitor))))) = [3]"
    and "map (\<lambda>e. (event_file_path e, event_type e))
     (file_events (db (db_manager
        (fold (\<lambda>w. on_modified ascii_lower id w modified_a) [world_a1, world_a2] a_monitor)))) =
     [(''/x/a.txt'', ''modified''), (''/x/a.txt'', ''modified'')]"
    unfolding old oldev by simp_all
  with h1 h3 show ?thesis by blast
qed

text \<open>
  Counterexample to C3 as stated: two Modified notifications for \<^verbatim>\<open>/x/a.txt\<close>, half a
  second apart, raise the access count from 1 to 3 and log two events.
\<close>

theorem on_modified_twice_counterexample:
  "map access_count (files (db (db_manager a_monitor))) = [1] \<and>
   map access_count (files (db (db_manager
     (on_modified ascii_lower id world_a2 modified_a (on_modified ascii_lower id world_a1 modified_a a_monitor))))) =
     [3] \<and>
   map event_type (file_events (db (db_manager
     (on_modified ascii_lower id world_a2 modified_a (on_modified ascii_lower id world_a1 modified_a a_monitor))))) =
     [''modified'', ''modified'']"
  by (simp add: example_defs on_modified_def Let_def clean_old_events_def fcard_finsert_if
      update_file_def os_path_exists_def query_first_def log_event_def new_id_def)

subsection \<open>C4: adding an indexed file again\<close>

text \<open>
  Claim C4: for a path that already has an index record (paths being unique in the table),
  \<open>add_file\<close> leaves exactly one record for that path, with its access count unchanged;
  the paths of the table stay as they were. This holds whatever the filesystem shows, in
  particular when the file exists on disk and the existing row is refreshed.
\<close>

theorem add_file_idempotent:
  assumes "distinct (map file_path (files (db m)))"
    and "p \<in> file_path ` set (files (db m))"
  shows "length (filter (\<lambda>f. file_path f = p) (files (db (add_file lower fs now p m)))) = 1 \<and>
         map access_count (filter (\<lambda>f. file_path f = p) (files (db (add_file lower fs now p m)))) =
         map access_count (filter (\<lambda>f. file_path f = p) (files (db m))) \<and>
         map file_path (files (db (add_file lower fs now p m))) = map file_path (files (db m))"
proof -
  from assms(2) obtain f where f: "find (\<lambda>x. file_path x = p) (files (db m)) = Some f"
    using find_exists[of p file_path "files (db m)"] by blast
  then have fp: "file_path f = p" using find_Some_mem[of "\<lambda>x. file_path x = p"] by blast
  have old: "filter (\<lambda>f. file_path f = p) (files (db m)) = [f]"
    using find_filter_distinct[OF assms(1) f] .
  show ?thesis
  proof (cases "os_path_exists fs p \<and> os_path_isfile fs p")
    case False
    then have "add_file lower fs now p m = m" by (auto simp: add_file_def)
    with old show ?thesis by simp
  next
    case True
    then obtain stat where st: "fs p = Some stat"
      by (auto simp: os_path_exists_def split: option.splits)
    let ?new = "f\<lparr>modified_time := st_mtime stat, last_accessed := now,
                   file_size := Some (st_size stat)\<rparr>"
    have fl: "files (db (add_file lower fs now p m)) = update_row f ?new (files (db m))"
      using True st f by (simp add: add_file_def query_first_def log_event_def)
    have "filter (\<lambda>x. file_path x = p) (update_row f ?new (files (db m))) = [?new]"
      by (rule update_row_filter[OF assms(1) f]) (simp add: fp)
    moreover have "map file_path (update_row f ?new (files (db m))) =
                   map file_path (files (db m))"
      by (rule update_row_map) simp
    ultimately show ?thesis unfolding fl old by simp
  qed
qed

text \<open>
  Witness for C4: \<^verbatim>\<open>/x/a.txt\<close> exists on disk and is indexed with access count 1;
  \<open>add_file\<close> is applied to it once more.
\<close>

theorem add_file_idempotent_witness:
  "distinct (map file_path (files (db a_manager))) \<and>
   ''/x/a.txt'' \<in> file_path ` set (files (db a_manager)) \<and>
   os_path_isfile fs_a ''/x/a.txt'' \<and>
   length (filter (\<lambda>f. file_path f = ''/x/a.txt'')
     (files (db (add_file ascii_lower fs_a 30 ''/x/a.txt'' a_manager)))) = 1 \<and>
   map access_count (filter (\<lambda>f. file_path f = ''/x/a.txt'')
     (files (db (add_file ascii_lower fs_a 30 ''/x/a.txt'' a_manager)))) = [1] \<and>
   map file_path (files (db (add_file ascii_lower fs_a 30 ''/x/a.txt'' a_manager))) = [''/x/a.txt'']"
proof -
  have h1: "distinct (map file_path (files (db a_manager)))"
    by (simp add: a_manager_def)
  have h2: "''/x/a.txt'' \<in> file_path ` set (files (db a_manager))"
    by (simp add: a_manager_def a_file_def)
  have h3: "os_path_isfile fs_a ''/x/a.txt''"
    by (simp add: fs_a_def a_stat_def os_path_isfile_def)
  have old: "map access_count (filter (\<lambda>f. file_path f = ''/x/a.txt'') (files (db a_manager))) = [1]"
    "map file_path (files (db a_manager)) = [''/x/a.txt'']"
    by (simp_all add: a_manager_def a_file_def)
  from add_file_idempotent[OF h1 h2, where lower = ascii_lower and fs = fs_a and now = 30]
  have "length (filter (\<lambda>f. file_path f = ''/x/a.txt'')
     (files (db (add_file ascii_lower fs_a 30 ''/x/a.txt'' a_manager)))) = 1"
   and "map access_count (filter (\<lambda>f. file_path f = ''/x/a.txt'')
     (files (db (add_file ascii_lower fs_a 30 ''/x/a.txt'' a_manager)))) = [1]"
   and "map file_path (files (db (add_file ascii_lower fs_a 30 ''/x/a.txt'' a_manager))) = [''/x/a.txt'']"
    unfolding old by simp_all
  with h1 h2 h3 show ?thesis by blast
qed

subsection \<open>C5: the classifier\<close>

text \<open>
  Claim C5 says that the classifier is total and deterministic, returns a defined category
  for every string, matches the extension table without regard to case and with the leading
  dot optional, and sends an unknown or missing extension to \<open>other\<close>. The functions
  classify a file name, not an extension, and the dot is part of every key of the table. As
  amended, for every string and whatever function \<^verbatim>\<open>str.lower\<close> is:
  \<^item> both classifiers return one of the six categories;
  \<^item> the manager's classifier returns the category that the table gives for the
    lower-cased extension that \<^verbatim>\<open>os.path.splitext\<close> finds, and both classifiers
    return \<open>other\<close> when the table has no entry for it;
  \<^item> the classifier of the user interface returns what the manager's returns, except
    for the extensions \<^verbatim>\<open>.flv\<close> and \<^verbatim>\<open>.aac\<close>, which it sends to \<open>other\<close>;
  \<^item> two names whose extensions have the same lower-casing get the same category; in
    particular, when lower-casing is the ASCII one on ASCII strings, an ASCII name and its
    upper-case form get the same category;
  \<^item> a name that holds no dot has no extension, and is classified as \<open>other\<close> (the
    lower-casing of the empty string being empty): the leading dot is not optional.
\<close>

theorem get_file_type_total:
  "get_file_type lower p \<in> categories \<and> ui_get_file_type lower p \<in> categories \<and>
   (type_map (lower (snd (splitext p))) = Some t \<longrightarrow> get_file_type lower p = t) \<and>
   (type_map (lower (snd (splitext p))) = None \<longrightarrow>
      get_file_type lower p = ''other'' \<and> ui_get_file_type lower p = ''other'') \<and>
   ui_get_file_type lower p =
     (if lower (snd (splitext p)) = ''.flv'' \<or> lower (snd (splitext p)) = ''.aac''
      then ''other'' else get_file_type lower p) \<and>
   (lower (snd (splitext p)) = lower (snd (splitext q)) \<longrightarrow>
      get_file_type lower p = get_file_type lower q \<and>
      ui_get_file_type lower p = ui_get_file_type lower q) \<and>
   ((\<forall>s. isascii s \<longrightarrow> lower s = ascii_lower s) \<and> isascii p \<longrightarrow>
      get_file_type lower (ascii_upper p) = get_file_type lower p \<and>
      ui_get_file_type lower (ascii_upper p) = ui_get_file_type lower p) \<and>
   (CHR ''.'' \<notin> set p \<longrightarrow> snd (splitext p) = []) \<and>
   (CHR ''.'' \<notin> set p \<and> lower [] = [] \<longrightarrow>
      get_file_type lower p = ''other'' \<and> ui_get_file_type lower p = ''other'')"
proof -
  have known: "type_map (lower (snd (splitext p))) = Some t \<longrightarrow> get_file_type lower p = t"
    by (simp add: get_file_type_def)
  have unknown: "type_map (lower (snd (splitext p))) = None \<longrightarrow>
      get_file_type lower p = ''other'' \<and> ui_get_file_type lower p = ''other''"
    by (simp add: ui_get_file_type_table get_file_type_def)
  have ui: "\<And>p. ui_get_file_type lower p =
     (if lower (snd (splitext p)) = ''.flv'' \<or> lower (snd (splitext p)) = ''.aac''
      then ''other'' else get_file_type lower p)"
    by (rule ui_get_file_type_table)
  have same: "\<And>p q. lower (snd (splitext p)) = lower (snd (splitext q)) \<Longrightarrow>
      get_file_type lower p = get_file_type lower q \<and>
      ui_get_file_type lower p = ui_get_file_type lower q"
    by (simp add: get_file_type_def ui_get_file_type_def)
  have upper: "(\<forall>s. isascii s \<longrightarrow> lower s = ascii_lower s) \<and> isascii p \<longrightarrow>
      get_file_type lower (ascii_upper p) = get_file_type lower p \<and>
      ui_get_file_type lower (ascii_upper p) = ui_get_file_type lower p"
  proof
    assume asm: "(\<forall>s. isascii s \<longrightarrow> lower s = ascii_lower s) \<and> isascii p"
    then have e: "isascii (snd (splitext p))" by (simp add: isascii_splitext)
    then have eu: "isascii (ascii_upper (snd (splitext p)))" by (rule isascii_ascii_upper)
    have "lower (snd (splitext (ascii_upper p))) = lower (ascii_upper (snd (splitext p)))"
      by (simp add: splitext_ascii_upper)
    also have "\<dots> = ascii_lower (ascii_upper (snd (splitext p)))" using asm eu by blast
    also have "\<dots> = ascii_lower (snd (splitext p))" by (rule ascii_lower_upper)
    also have "\<dots> = lower (snd (splitext p))" using asm e by simp
    finally show "get_file_type lower (ascii_upper p) = get_file_type lower p \<and>
      ui_get_file_type lower (ascii_upper p) = ui_get_file_type lower p"
      by (rule same)
  qed
  have noext: "CHR ''.'' \<notin> set p \<longrightarrow> snd (splitext p) = []"
    using splitext_no_dot[of p] by blast
  have nodot: "CHR ''.'' \<notin> set p \<and> lower [] = [] \<longrightarrow>
      get_file_type lower p = ''other'' \<and> ui_get_file_type lower p = ''other''"
    using noext by (auto simp: get_file_type_def ui_get_file_type_def type_map_empty)
  have same': "lower (snd (splitext p)) = lower (snd (splitext q)) \<longrightarrow>
      get_file_type lower p = get_file_type lower q \<and>
      ui_get_file_type lower p = ui_get_file_type lower q"
    using same by blast
  from get_file_type_cat[of lower p] ui_get_file_type_cat[of lower p] known unknown ui[of p]
    same' upper noext nodot
  show ?thesis by blast
qed

text \<open>
  Witness for C5, with the ASCII lower-casing: \<^verbatim>\<open>/x/A.TXT\<close> has the extension
  \<^verbatim>\<open>.TXT\<close>, which the table knows in lower case, and is a document like
  \<^verbatim>\<open>/x/a.txt\<close>; \<^verbatim>\<open>/x/a.xyz\<close> has an extension that the table does not know; the
  bare extension \<^verbatim>\<open>txt\<close> holds no dot.
\<close>

theorem get_file_type_total_witness:
  "type_map (ascii_lower (snd (splitext ''/x/A.TXT''))) = Some ''document'' \<and>
   get_file_type ascii_lower ''/x/A.TXT'' = ''document'' \<and>
   ui_get_file_type ascii_lower ''/x/A.TXT'' = ''document'' \<and>
   ascii_lower (snd (splitext ''/x/A.TXT'')) = ascii_lower (snd (splitext ''/x/a.txt'')) \<and>
   get_file_type ascii_lower ''/x/a.txt'' = ''document'' \<and>
   isascii ''/x/a.txt'' \<and> ascii_upper ''/x/a.txt'' = ''/X/A.TXT'' \<and>
   get_file_type ascii_lower ''/X/A.TXT'' = ''document'' \<and>
   type_map (ascii_lower (snd (splitext ''/x/a.xyz''))) = None \<and>
   get_file_type ascii_lower ''/x/a.xyz'' = ''other'' \<and>
   ui_get_file_type ascii_lower ''/x/a.xyz'' = ''other'' \<and>
   CHR ''.'' \<notin> set ''txt'' \<and> ascii_lower [] = [] \<and>
   get_file_type ascii_lower ''txt'' = ''other'' \<and> ui_get_file_type ascii_lower ''txt'' = ''other''"
proof -
  have e1: "snd (splitext ''/x/A.TXT'') = ''.TXT''" "snd (splitext ''/x/a.txt'') = ''.txt''"
    "snd (splitext ''/x/a.xyz'') = ''.xyz''"
    by (simp_all add: splitext_def rfind_def)
  have l1: "ascii_lower ''.TXT'' = ''.txt''" "ascii_lower ''.txt'' = ''.txt''"
    "ascii_lower ''.xyz'' = ''.xyz''" "ascii_lower [] = []"
    by (simp_all add: ascii_lower_def ascii_lower_char_def)
  have h1: "type_map (ascii_lower (snd (splitext ''/x/A.TXT''))) = Some ''document''"
    unfolding e1 l1 by (simp add: type_map_def)
  have h2: "ascii_lower (snd (splitext ''/x/A.TXT'')) = ascii_lower (snd (splitext ''/x/a.txt''))"
    unfolding e1 l1 by simp
  have h3: "type_map (ascii_lower (snd (splitext ''/x/a.xyz''))) = None"
    unfolding e1 l1 by (simp add: type_map_def)
  have h4: "CHR ''.'' \<notin> set ''txt''" by simp
  have h5: "\<forall>s. isascii s \<longrightarrow> ascii_lower s = ascii_lower s" by simp
  have h6: "isascii ''/x/a.txt''" by (simp add: isascii_def)
  have u: "ascii_upper ''/x/a.txt'' = ''/X/A.TXT''"
    by (simp add: ascii_upper_def ascii_upper_char_def)
  note A = get_file_type_total[where lower = ascii_lower and p = "''/x/A.TXT''"
      and q = "''/x/a.txt''" and t = "''document''"]
  note B = get_file_type_total[where lower = ascii_lower and p = "''/x/a.txt''"
      and q = "''/x/a.txt''" and t = "''document''"]
  note C = get_file_type_total[where lower = ascii_lower and p = "''/x/a.xyz''"
      and q = "''/x/a.xyz''" and t = "''document''"]
  note D = get_file_type_total[where lower = ascii_lower and p = "''txt''"
      and q = "''txt''" and t = "''document''"]
  from A h1 have a1: "get_file_type ascii_lower ''/x/A.TXT'' = ''document''" by blast
  from A h2 a1 have a2: "get_file_type ascii_lower ''/x/a.txt'' = ''document''" by metis
  from A have "ui_get_file_type ascii_lower ''/x/A.TXT'' =
     (if ascii_lower (snd (splitext ''/x/A.TXT'')) = ''.flv'' \<or>
         ascii_lower (snd (splitext ''/x/A.TXT'')) = ''.aac''
      then ''other'' else get_file_type ascii_lower ''/x/A.TXT'')" by blast
  then have a3: "ui_get_file_type ascii_lower ''/x/A.TXT'' = ''document''"
    unfolding e1 l1 a1 by simp
  from B h5 h6 a2 have b1: "get_file_type ascii_lower ''/X/A.TXT'' = ''document''"
    unfolding u by metis
  from C h3 have c1: "get_file_type ascii_lower ''/x/a.xyz'' = ''other'' \<and>
      ui_get_file_type ascii_lower ''/x/a.xyz'' = ''other''" by blast
  from D h4 l1(4) have d1: "get_file_type ascii_lower ''txt'' = ''other'' \<and>
      ui_get_file_type ascii_lower ''txt'' = ''other''" by blast
  from h1 a1 a3 h2 a2 h6 u b1 h3 c1 h4 l1(4) d1 show ?thesis by blast
qed

text \<open>
  Counterexample to C5 as stated, with the ASCII lower-casing: the table sends the
  extension \<^verbatim>\<open>.txt\<close> to \<open>document\<close>, and a file name with that extension is a
  document, but the extension given alone, with or without its dot, is classified as
  \<open>other\<close>.
\<close>

theorem get_file_type_bare_extension_counterexample:
  "type_map ''.txt'' = Some ''document'' \<and>
   get_file_type ascii_lower ''/x/a.txt'' = ''document'' \<and>
   get_file_type ascii_lower ''txt'' = ''other'' \<and>
   get_file_type ascii_lower ''.txt'' = ''other'' \<and>
   ui_get_file_type ascii_lower ''txt'' = ''other'' \<and>
   ui_get_file_type ascii_lower ''.txt'' = ''other''"
  by (simp add: get_file_type_def ui_get_file_type_def splitext_def rfind_def ascii_lower_def
      ascii_lower_char_def type_map_def)

subsection \<open>C6: a Modified event for a vanished path\<close>

text \<open>
  Claim C6 says that a Modified event for a tracked path that no longer exists takes the
  Deleted branch. \<open>update_file\<close> tests the existence of the path first and has no branch
  for a missing path. As amended: when the path does not exist on the filesystem, a Modified
  event changes nothing: \<open>update_file\<close> returns the manager as it was (the record is
  left as it is, not modified and not removed, and no event is appended), and so does the
  handler \<open>on_modified\<close> for the manager it holds.
\<close>

theorem update_file_missing_noop:
  assumes "\<not> os_path_exists fs p"
  shows "update_file lower fs now p m = m \<and>
         (filesystem w = fs \<and> abspath (src_path event) = p \<longrightarrow>
            db_manager (on_modified lower abspath w event mon) = db_manager mon)"
proof -
  have a: "\<And>now m. update_file lower fs now p m = m"
    using assms by (rule update_file_absent)
  have "filesystem w = fs \<and> abspath (src_path event) = p \<longrightarrow>
            db_manager (on_modified lower abspath w event mon) = db_manager mon"
    by (auto simp: on_modified_def Let_def clean_old_events_manager a)
  with a show ?thesis by simp
qed

text \<open>
  Witness for C6: \<^verbatim>\<open>/x/a.txt\<close> is indexed, the filesystem is empty, and a Modified
  notification for it arrives.
\<close>

theorem update_file_missing_noop_witness:
  "\<not> os_path_exists fs_empty ''/x/a.txt'' \<and>
   filesystem world_empty = fs_empty \<and> id (src_path modified_a) = ''/x/a.txt'' \<and>
   update_file ascii_lower fs_empty 30 ''/x/a.txt'' a_manager = a_manager \<and>
   db_manager (on_modified ascii_lower id world_empty modified_a a_monitor) = db_manager a_monitor"
proof -
  have h1: "\<not> os_path_exists fs_empty ''/x/a.txt''"
    by (simp add: fs_empty_def os_path_exists_def)
  have h2: "filesystem world_empty = fs_empty" by (simp add: world_empty_def)
  have h3: "id (src_path modified_a) = ''/x/a.txt''" by (simp add: modified_a_def)
  from update_file_missing_noop[OF h1, where lower = ascii_lower and w = world_empty and abspath = id
      and event = modified_a and now = 30 and m = a_manager and mon = a_monitor] h1 h2 h3
  show ?thesis by blast
qed

text \<open>
  Counterexample to C6 as stated: for the indexed and vanished \<^verbatim>\<open>/x/a.txt\<close> the Modified
  event leaves the manager as it was, with the row in place and the event log empty, while
  the Deleted branch, \<open>remove_file\<close>, would have changed it.
\<close>

theorem update_file_not_deleted_counterexample:
  "query_first ''/x/a.txt'' (db a_manager) = Some a_file \<and>
   \<not> os_path_exists fs_empty ''/x/a.txt'' \<and>
   update_file ascii_lower fs_empty 30 ''/x/a.txt'' a_manager = a_manager \<and>
   file_events (db (update_file ascii_lower fs_empty 30 ''/x/a.txt'' a_manager)) = [] \<and>
   remove_file 30 ''/x/a.txt'' a_manager \<noteq> update_file ascii_lower fs_empty 30 ''/x/a.txt'' a_manager"
  by (simp add: example_defs query_first_def remove_file_def update_file_def
      os_path_exists_def log_event_def)

subsection \<open>C7: the statistics count every record\<close>

text \<open>
  Claim C7 says that the statistics are computed over Live records only, those whose path
  still exists. \<open>get_file_stats\<close> never looks at the filesystem. As amended: the
  statistics are computed over all records of the store: the number of files is the number
  of rows, which is the number of rows whose path exists plus the number of rows whose path
  is missing (the deleted files of the trash listing); the size is the sum of the sizes of
  all rows that have one; the count of a type name is the number of rows whose file type,
  capitalized, is that name.
\<close>

theorem get_file_stats_all_records:
  "total_files (get_file_stats capitalize (Some d)) = length (files d) \<and>
   total_files (get_file_stats capitalize (Some d)) =
     length (filter (\<lambda>f. os_path_exists fs (file_path f)) (files d)) +
     length (get_deleted_files fs (Some d)) \<and>
   total_size_bytes (get_file_stats capitalize (Some d)) =
     (\<Sum>f\<leftarrow>files d. case file_size f of None \<Rightarrow> 0 | Some s \<Rightarrow> s) \<and>
   type_counts (get_file_stats capitalize (Some d)) k =
     (let n = length (filter (\<lambda>f. case file_type f of None \<Rightarrow> False
                                   | Some t \<Rightarrow> t \<noteq> [] \<and> capitalize t = k) (files d))
      in if n = 0 then None else Some n)"
proof -
  have a: "total_files (get_file_stats capitalize (Some d)) = length (files d)"
    by (simp add: get_file_stats_def)
  have b: "length (files d) =
     length (filter (\<lambda>f. os_path_exists fs (file_path f)) (files d)) +
     length (get_deleted_files fs (Some d))"
    by (simp add: get_deleted_files_def sum_length_filter_compl)
  have c: "total_size_bytes (get_file_stats capitalize (Some d)) =
     (\<Sum>f\<leftarrow>files d. case file_size f of None \<Rightarrow> 0 | Some s \<Rightarrow> s)"
    by (simp add: get_file_stats_def sum_sizes del: not_None_eq)
  have d: "type_counts (get_file_stats capitalize (Some d)) k =
     (let n = length (filter (\<lambda>f. case file_type f of None \<Rightarrow> False
                                   | Some t \<Rightarrow> t \<noteq> [] \<and> capitalize t = k) (files d))
      in if n = 0 then None else Some n)"
    by (simp add: get_file_stats_def count_types_lookup filter_map comp_def)
  from a b c d show ?thesis by simp
qed

text \<open>
  Witness for C7: the store indexes \<^verbatim>\<open>/x/a.txt\<close> and the filesystem is empty; the one
  record is counted although its path is missing.
\<close>

theorem get_file_stats_all_records_witness:
  "total_files (get_file_stats ascii_capitalize (Some (db a_manager))) = 1 \<and>
   length (get_deleted_files fs_empty (Some (db a_manager))) = 1 \<and>
   total_size_bytes (get_file_stats ascii_capitalize (Some (db a_manager))) = 5"
  using get_file_stats_all_records[where capitalize = ascii_capitalize and d = "db a_manager"
      and fs = fs_empty and k = "''Document''"]
  by (simp add: example_defs os_path_exists_def)

text \<open>
  Counterexample to C7 as stated: the only record of the store has no file on disk (it is
  listed among the deleted files), and the statistics report one file, five bytes and one
  document.
\<close>

theorem get_file_stats_counts_deleted_counterexample:
  "get_deleted_files fs_empty (Some (db a_manager)) = [a_file] \<and>
   files (db a_manager) = [a_file] \<and>
   total_files (get_file_stats ascii_capitalize (Some (db a_manager))) = 1 \<and>
   total_size_bytes (get_file_stats ascii_capitalize (Some (db a_manager))) = 5 \<and>
   type_counts (get_file_stats ascii_capitalize (Some (db a_manager))) ''Document'' = Some 1"
  by (simp add: example_defs get_deleted_files_def get_file_stats_def os_path_exists_def
      ascii_upper_char_def ascii_lower_def ascii_lower_char_def)

subsection \<open>C8: the cleanup of deleted files\<close>

text \<open>
  Claim C8: \<open>cleanup_deleted_files\<close>, on a session, removes exactly the records whose
  path is absent from the filesystem, keeps the others in their order, and reports the
  number of records it removed; run again at once on its own result, with the filesystem
  unchanged, it reports 0 and leaves the store as it is.
\<close>

theorem cleanup_deleted_files_idempotent:
  "cleanup_deleted_files fs (Some d) =
     ((True, Permanently_deleted
         (length (filter (\<lambda>f. \<not> os_path_exists fs (file_path f)) (files d)))),
      Some (d\<lparr>files := filter (\<lambda>f. os_path_exists fs (file_path f)) (files d)\<rparr>)) \<and>
   cleanup_deleted_files fs (snd (cleanup_deleted_files fs (Some d))) =
     ((True, Permanently_deleted 0), snd (cleanup_deleted_files fs (Some d)))"
  by (simp add: cleanup_deleted_files_Some)

text \<open>
  Witness for C8: the store indexes \<^verbatim>\<open>/x/a.txt\<close> and the filesystem is empty; the first
  cleanup removes one record, the second none.
\<close>

theorem cleanup_deleted_files_idempotent_witness:
  "fst (cleanup_deleted_files fs_empty (Some (db a_manager))) = (True, Permanently_deleted 1) \<and>
   snd (cleanup_deleted_files fs_empty (Some (db a_manager))) =
     Some \<lparr>files = [], file_events = []\<rparr> \<and>
   cleanup_deleted_files fs_empty (snd (cleanup_deleted_files fs_empty (Some (db a_manager)))) =
     ((True, Permanently_deleted 0), Some \<lparr>files = [], file_events = []\<rparr>)"
proof -
  have d: "db a_manager = \<lparr>files = [a_file], file_events = []\<rparr>"
    by (simp add: a_manager_def)
  have gone: "\<not> os_path_exists fs_empty (file_path a_file)"
    by (simp add: fs_empty_def os_path_exists_def)
  note both = cleanup_deleted_files_idempotent[of fs_empty "db a_manager"]
  from both have first: "cleanup_deleted_files fs_empty (Some (db a_manager)) =
      ((True, Permanently_deleted 1), Some \<lparr>files = [], file_events = []\<rparr>)"
    unfolding d using gone by simp
  from both have "cleanup_deleted_files fs_empty
        (snd (cleanup_deleted_files fs_empty (Some (db a_manager)))) =
      ((True, Permanently_deleted 0), snd (cleanup_deleted_files fs_empty (Some (db a_manager))))"
    by (rule conjunct2)
  then show ?thesis unfolding first by simp
qed

subsection \<open>C9: a Deleted event for a path without a record\<close>

text \<open>
  Claim C9: when the path has no record in the index, \<open>remove_file\<close> leaves the database,
  that is the table of files and the event log, unchanged and returns normally; all it does
  is write one log record of level warning. The handler \<open>on_deleted\<close> for such a path
  leaves the database unchanged as well.
\<close>

theorem remove_file_untracked_frame:
  assumes "p \<notin> file_path ` set (files (db m))"
  shows "db (remove_file now p m) = db m \<and>
         log_records (remove_file now p m) =
           log_records m @ [(WARNING, ''File not found in database: '' @ p)] \<and>
         (abspath (src_path event) = p \<and> db_manager mon = m \<longrightarrow>
            db (db_manager (on_deleted abspath w event mon)) = db m)"
proof -
  have r: "\<And>now. remove_file now p m =
         m\<lparr>log_records := log_records m @ [(WARNING, ''File not found in database: '' @ p)]\<rparr>"
    using assms by (rule remove_file_miss)
  have "abspath (src_path event) = p \<and> db_manager mon = m \<longrightarrow>
            db (db_manager (on_deleted abspath w event mon)) = db m"
    by (auto simp: on_deleted_def Let_def clean_old_events_manager r)
  then show ?thesis by (simp add: r)
qed

text \<open>
  Witness for C9: the store indexes only \<^verbatim>\<open>/x/a.txt\<close>, and a Deleted notification for
  \<^verbatim>\<open>/x/b.txt\<close> arrives.
\<close>

theorem remove_file_untracked_frame_witness:
  "''/x/b.txt'' \<notin> file_path ` set (files (db a_manager)) \<and>
   id (src_path deleted_b) = ''/x/b.txt'' \<and> db_manager a_monitor = a_manager \<and>
   db (remove_file 30 ''/x/b.txt'' a_manager) = db a_manager \<and>
   log_records (remove_file 30 ''/x/b.txt'' a_manager) =
     log_records a_manager @ [(WARNING, ''File not found in database: '' @ ''/x/b.txt'')] \<and>
   db (db_manager (on_deleted id world_empty deleted_b a_monitor)) = db a_manager"
proof -
  have h1: "''/x/b.txt'' \<notin> file_path ` set (files (db a_manager))"
    by (simp add: a_manager_def a_file_def)
  have h2: "id (src_path deleted_b) = ''/x/b.txt''" by (simp add: deleted_b_def)
  have h3: "db_manager a_monitor = a_manager" by (simp add: a_monitor_def)
  from remove_file_untracked_frame[OF h1, where now = 30 and abspath = id
      and event = deleted_b and mon = a_monitor and w = world_empty] h1 h2 h3
  show ?thesis by blast
qed

subsection \<open>C10: a Modified event for a path without a record\<close>

text \<open>
  Claim C10 says that a Modified event for a path that exists on the filesystem and has no
  record falls through to the ingestion of \<open>add_file\<close>, which inserts a fresh record.
  \<open>add_file\<close> ingests regular files only. As amended, for a path that exists on the
  filesystem and has no index record: when the path is a regular file, \<open>update_file\<close>
  does what \<open>add_file\<close> does: one row is appended for the path, built from the file's
  metadata, with access count 1, and one event of type \<open>created\<close> is appended to the
  event log; when the path is not a regular file, \<open>update_file\<close> returns the manager as
  it was: nothing is inserted and nothing is logged.
\<close>

theorem update_file_untracked_regular:
  assumes "fs p = Some stat"
    and "p \<notin> file_path ` set (files (db m))"
  shows "(st_kind stat = Regular \<longrightarrow>
     update_file lower fs now p m = add_file lower fs now p m \<and>
     files (db (update_file lower fs now p m)) = files (db m) @
        [\<lparr>file_id = new_id (map file_id (files (db m))), file_path = p, file_name = basename p,
          file_extension = lower (snd (splitext p)), file_size = Some (st_size stat),
          file_type = Some (get_file_type lower p), created_time = st_ctime stat,
          modified_time = st_mtime stat, last_accessed = now, access_count = 1\<rparr>] \<and>
     file_events (db (update_file lower fs now p m)) = file_events (db m) @
        [\<lparr>event_id = new_id (map event_id (file_events (db m))), event_file_path = p,
          event_type = ''created'', timestamp = now\<rparr>]) \<and>
    (st_kind stat \<noteq> Regular \<longrightarrow> update_file lower fs now p m = m)"
proof -
  from assms(2) have q: "query_first p (db m) = None" by (simp add: query_first_None)
  from assms(1) have ex: "os_path_exists fs p" by (simp add: os_path_exists_def)
  have u: "update_file lower fs now p m = add_file lower fs now p m"
    using ex q by (simp add: update_file_def)
  have reg: "st_kind stat = Regular \<longrightarrow>
     files (db (add_file lower fs now p m)) = files (db m) @
        [\<lparr>file_id = new_id (map file_id (files (db m))), file_path = p, file_name = basename p,
          file_extension = lower (snd (splitext p)), file_size = Some (st_size stat),
          file_type = Some (get_file_type lower p), created_time = st_ctime stat,
          modified_time = st_mtime stat, last_accessed = now, access_count = 1\<rparr>] \<and>
     file_events (db (add_file lower fs now p m)) = file_events (db m) @
        [\<lparr>event_id = new_id (map event_id (file_events (db m))), event_file_path = p,
          event_type = ''created'', timestamp = now\<rparr>]"
    using assms(1) q ex by (simp add: add_file_def os_path_isfile_def log_event_def)
  have other: "st_kind stat \<noteq> Regular \<longrightarrow> add_file lower fs now p m = m"
    using assms(1) by (simp add: add_file_def os_path_isfile_def)
  show ?thesis unfolding u using reg other by simp
qed

text \<open>
  Witness for C10, with the ASCII lower-casing: the store indexes only \<^verbatim>\<open>/x/a.txt\<close>.
  The regular file \<^verbatim>\<open>/x/b.txt\<close> is on disk and a Modified event for it is processed;
  and \<^verbatim>\<open>/x/pipe\<close> is on disk, not a regular file, and a Modified event for it is
  processed.
\<close>

theorem update_file_untracked_regular_witness:
  "fs_b ''/x/b.txt'' = Some a_stat \<and> st_kind a_stat = Regular \<and>
   ''/x/b.txt'' \<notin> file_path ` set (files (db a_manager)) \<and>
   map file_path (files (db (update_file ascii_lower fs_b 30 ''/x/b.txt'' a_manager))) =
     [''/x/a.txt'', ''/x/b.txt''] \<and>
   map access_count (files (db (update_file ascii_lower fs_b 30 ''/x/b.txt'' a_manager))) =
     [1, 1] \<and>
   map event_type (file_events (db (update_file ascii_lower fs_b 30 ''/x/b.txt'' a_manager))) =
     [''created''] \<and>
   fs_pipe ''/x/pipe'' = Some (a_stat\<lparr>st_kind := Special\<rparr>) \<and>
   st_kind (a_stat\<lparr>st_kind := Special\<rparr>) \<noteq> Regular \<and>
   ''/x/pipe'' \<notin> file_path ` set (files (db a_manager)) \<and>
   update_file ascii_lower fs_pipe 30 ''/x/pipe'' a_manager = a_manager"
proof -
  have h1: "fs_b ''/x/b.txt'' = Some a_stat" by (simp add: fs_b_def)
  have h2: "st_kind a_stat = Regular" by (simp add: a_stat_def)
  have h3: "''/x/b.txt'' \<notin> file_path ` set (files (db a_manager))"
    by (simp add: a_manager_def a_file_def)
  have g1: "fs_pipe ''/x/pipe'' = Some (a_stat\<lparr>st_kind := Special\<rparr>)" by (simp add: fs_pipe_def)
  have g2: "st_kind (a_stat\<lparr>st_kind := Special\<rparr>) \<noteq> Regular" by simp
  have g3: "''/x/pipe'' \<notin> file_path ` set (files (db a_manager))"
    by (simp add: a_manager_def a_file_def)
  have old: "files (db a_manager) = [a_file]" "file_events (db a_manager) = []"
    by (simp_all add: a_manager_def)
  note regular = update_file_untracked_regular[where lower = ascii_lower and fs = fs_b
      and p = "''/x/b.txt''" and stat = a_stat and m = a_manager and now = 30,
      OF h1 h3, THEN conjunct1, rule_format, OF h2, THEN conjunct2]
  from regular[THEN conjunct1] regular[THEN conjunct2]
  have "map file_path (files (db (update_file ascii_lower fs_b 30 ''/x/b.txt'' a_manager))) =
     [''/x/a.txt'', ''/x/b.txt'']"
    and "map access_count (files (db (update_file ascii_lower fs_b 30 ''/x/b.txt'' a_manager))) =
     [1, 1]"
    and "map event_type
       (file_events (db (update_file ascii_lower fs_b 30 ''/x/b.txt'' a_manager))) =
     [''created'']"
    unfolding old by (simp_all add: a_file_def)
  moreover have "update_file ascii_lower fs_pipe 30 ''/x/pipe'' a_manager = a_manager"
    using update_file_untracked_regular[where lower = ascii_lower and fs = fs_pipe
      and p = "''/x/pipe''" and stat = "a_stat\<lparr>st_kind := Special\<rparr>" and m = a_manager
      and now = 30, OF g1 g3, THEN conjunct2] g2 by blast
  ultimately show ?thesis using h1 h2 h3 g1 g2 g3 by blast
qed

text \<open>
  Counterexample to C10 as stated: \<^verbatim>\<open>/x/pipe\<close> exists on the filesystem but is not a
  regular file, and has no record; the Modified notification for it, which is not one for a
  directory, leaves the manager as it was: no record is inserted and no event appended.
\<close>

theorem update_file_special_counterexample:
  "os_path_exists fs_pipe ''/x/pipe'' \<and>
   query_first ''/x/pipe'' (db a_manager) = None \<and>
   \<not> is_directory modified_pipe \<and>
   update_file ascii_lower fs_pipe 30 ''/x/pipe'' a_manager = a_manager \<and>
   db_manager (on_modified ascii_lower id world_pipe modified_pipe a_monitor) = a_manager"
  by (simp add: example_defs on_modified_def Let_def clean_old_events_def fcard_finsert_if
      query_first_def update_file_def add_file_def os_path_exists_def os_path_isfile_def)


end
